theory Spec2Isabelle
  imports Main
begin

section \<open>Utility functions of the graph editor (\<^verbatim>\<open>pge/util.py\<close>)\<close>

text \<open>
  A shallow embedding of the functions of \<^verbatim>\<open>pge/util.py\<close>. Python exceptions are values
  of the type \<open>error\<close>; a function that can raise returns \<open>error + 'a\<close>, with \<open>Inl\<close> for
  the exception. Python text is represented by the list of its characters; the text given
  to the codec of attribute values, where the encoding matters, by the list of its code
  points.
\<close>

datatype error =
    TypeError | ValueError | KeyError | AttributeError | RecursionError
  | UnicodeEncodeError | UnicodeDecodeError

subsection \<open>Graph elements\<close>

text \<open>
  The classes \<^verbatim>\<open>pge.Graph\<close>, \<^verbatim>\<open>pge.Node\<close> and \<^verbatim>\<open>pge.Tensor\<close> are collaborators of
  \<^verbatim>\<open>util.py\<close>. A graph is identified by a number (object identity), a node by its owning
  graph and its name, a tensor by its owning graph, the name of the node producing it and
  its output index. \<open>Other\<close> stands for an object of any other class, with the value of
  its \<^verbatim>\<open>name\<close> attribute when it has one; it has no \<^verbatim>\<open>graph\<close> attribute.
\<close>

datatype py_obj =
    Node (node_graph: nat) (node_name: string)
  | Tensor (tensor_graph: nat) (tensor_node_name: string) (value_index: nat)
  | Other (other_name: "string option")

fun isinstance_Node :: "py_obj \<Rightarrow> bool" where
  "isinstance_Node (Node g n) = True"
| "isinstance_Node x = False"

fun isinstance_Tensor :: "py_obj \<Rightarrow> bool" where
  "isinstance_Tensor (Tensor g n i) = True"
| "isinstance_Tensor x = False"

subsection \<open>Strings\<close>

text \<open>\<^verbatim>\<open>s.startswith(p)\<close>.\<close>

definition startswith :: "string \<Rightarrow> string \<Rightarrow> bool" where
  "startswith s p = (take (length p) s = p)"

text \<open>\<^verbatim>\<open>s.rfind(c)\<close> for a one-character needle: the highest index of \<open>c\<close>, or \<open>-1\<close>.\<close>

fun rfind :: "string \<Rightarrow> char \<Rightarrow> int" where
  "rfind [] c = -1"
| "rfind (x # xs) c =
     (let r = rfind xs c in if r \<noteq> -1 then r + 1 else if x = c then 0 else -1)"

text \<open>\<^verbatim>\<open>"{}".format(n)\<close> for a non-negative integer: its decimal digits.\<close>

definition digit_char :: "nat \<Rightarrow> char" where
  "digit_char n = ''0123456789'' ! n"

fun str_of_nat :: "nat \<Rightarrow> string" where
  "str_of_nat n =
     (if n < 10 then [digit_char n] else str_of_nat (n div 10) @ [digit_char (n mod 10)])"

declare str_of_nat.simps [simp del]

text \<open>
  The attribute reads \<^verbatim>\<open>x.graph\<close> and \<^verbatim>\<open>x.name\<close>. A tensor is named after its
  node and output index, \<^verbatim>\<open>"node:index"\<close>.
\<close>

fun getattr_graph :: "py_obj \<Rightarrow> error + nat" where
  "getattr_graph (Node g n) = Inr g"
| "getattr_graph (Tensor g n i) = Inr g"
| "getattr_graph (Other nm) = Inl AttributeError"

fun getattr_name :: "py_obj \<Rightarrow> error + string" where
  "getattr_name (Node g n) = Inr n"
| "getattr_name (Tensor g n i) = Inr (n @ '':'' @ str_of_nat i)"
| "getattr_name (Other None) = Inl AttributeError"
| "getattr_name (Other (Some nm)) = Inr nm"

subsection \<open>Scope names\<close>

text \<open>
  \<^verbatim>\<open>
  def scope_finalize(scope):
    if scope and scope[-1] != "/":
      scope += "/"
    return scope
  def scope_dirname(scope):
    slash = scope.rfind("/")
    if slash == -1:
      return ""
    return scope[:slash + 1]
  def scope_basename(scope):
    slash = scope.rfind("/")
    if slash == -1:
      return scope
    return scope[slash + 1:]
  \<close>
\<close>

definition scope_finalize :: "string \<Rightarrow> string" where
  "scope_finalize scope =
     (if scope \<noteq> [] \<and> last scope \<noteq> CHR ''/'' then scope @ ''/'' else scope)"

definition scope_dirname :: "string \<Rightarrow> string" where
  "scope_dirname scope =
     (let slash = rfind scope CHR ''/''
      in if slash = -1 then [] else take (nat (slash + 1)) scope)"

definition scope_basename :: "string \<Rightarrow> string" where
  "scope_basename scope =
     (let slash = rfind scope CHR ''/''
      in if slash = -1 then scope else drop (nat (slash + 1)) scope)"

subsection \<open>Placeholder names\<close>

text \<open>
  \<^verbatim>\<open>placeholder_name(t=None, scope=None, prefix="geph")\<close>. The optional arguments \<open>t\<close>
  and \<open>scope\<close> are options, \<open>None\<close> being Python's \<^verbatim>\<open>None\<close>; the default of \<open>prefix\<close>
  is the constant \<^verbatim>\<open>_DEFAULT_PLACEHOLDER_PREFIX = "geph"\<close>.
  \<^verbatim>\<open>
  if scope is not None:
    scope = scope_finalize(scope)
  if t is not None:
    if not isinstance(t, tensor.Tensor):
      raise TypeError(...)
    op_dirname = scope_dirname(t.node.name)
    op_basename = scope_basename(t.node.name)
    if scope is None:
      scope = op_dirname
    if op_basename.startswith("{}__".format(prefix)):
      ph_name = op_basename
    else:
      ph_name = "{}__{}_{}".format(prefix, op_basename, t.value_index)
    return scope + ph_name
  else:
    if scope is None:
      scope = ""
    return "{}{}".format(scope, prefix)
  \<close>
\<close>

definition placeholder_name :: "py_obj option \<Rightarrow> string option \<Rightarrow> string \<Rightarrow> error + string" where
  "placeholder_name t scope prefix =
     (let scope1 = map_option scope_finalize scope in
      case t of
        Some tv \<Rightarrow>
          if \<not> isinstance_Tensor tv then Inl TypeError
          else
            let op_dirname = scope_dirname (tensor_node_name tv);
                op_basename = scope_basename (tensor_node_name tv);
                scope2 = (case scope1 of None \<Rightarrow> op_dirname | Some s \<Rightarrow> s);
                ph_name = (if startswith op_basename (prefix @ ''__'') then op_basename
                           else prefix @ ''__'' @ op_basename @ ''_'' @ str_of_nat (value_index tv))
            in Inr (scope2 @ ph_name)
      | None \<Rightarrow>
          let scope2 = (case scope1 of None \<Rightarrow> [] | Some s \<Rightarrow> s)
          in Inr (scope2 @ prefix))"

subsection \<open>Lists without duplicates\<close>

text \<open>
  \<^verbatim>\<open>concatenate_unique(la, lb)\<close> appends to \<open>la\<close> the elements of \<open>lb\<close> that are not in it
  yet, in the order of \<open>lb\<close>; the set \<^verbatim>\<open>la_set\<close> of the source holds the elements of \<open>la\<close>.
\<close>

fun concatenate_unique :: "'a list \<Rightarrow> 'a list \<Rightarrow> 'a list" where
  "concatenate_unique la [] = la"
| "concatenate_unique la (l # lb) =
     (if l \<notin> set la then concatenate_unique (la @ [l]) lb else concatenate_unique la lb)"

subsection \<open>Unique graph of a collection\<close>

text \<open>
  The argument \<^verbatim>\<open>tops\<close> of \<^verbatim>\<open>get_unique_graph\<close> is a graph, an iterable of objects, or a
  single object that is not iterable. \<^verbatim>\<open>check_types\<close> is \<^verbatim>\<open>None\<close> or the classes accepted
  (a single class is wrapped into a one-element tuple by the source).
\<close>

datatype py_class = NodeClass | TensorClass | OtherClass

fun class_of :: "py_obj \<Rightarrow> py_class" where
  "class_of (Node g n) = NodeClass"
| "class_of (Tensor g n i) = TensorClass"
| "class_of (Other nm) = OtherClass"

definition isinstance :: "py_obj \<Rightarrow> py_class list \<Rightarrow> bool" where
  "isinstance x classes = (class_of x \<in> set classes)"

datatype tops_arg = TopsGraph nat | TopsIterable "py_obj list" | TopsNotIterable

text \<open>
  The loop \<^verbatim>\<open>for op in tops\<close> with the local variable \<^verbatim>\<open>g\<close>:
  \<^verbatim>\<open>
    if not isinstance(op, check_types): raise TypeError(...)
    if g is None: g = op.graph
    elif g is not op.graph: raise ValueError(...)
  \<close>
\<close>

fun get_unique_graph_loop :: "py_class list \<Rightarrow> py_obj list \<Rightarrow> nat option \<Rightarrow> error + nat option" where
  "get_unique_graph_loop check_types [] g = Inr g"
| "get_unique_graph_loop check_types (x # xs) g =
     (if \<not> isinstance x check_types then Inl TypeError
      else case getattr_graph x of
        Inl e \<Rightarrow> Inl e
      | Inr xg \<Rightarrow>
          (case g of
             None \<Rightarrow> get_unique_graph_loop check_types xs (Some xg)
           | Some gv \<Rightarrow>
               if gv \<noteq> xg then Inl ValueError
               else get_unique_graph_loop check_types xs g))"

definition get_unique_graph :: "tops_arg \<Rightarrow> py_class list option \<Rightarrow> bool \<Rightarrow> error + nat option" where
  "get_unique_graph tops check_types none_if_empty =
     (case tops of
        TopsGraph g \<Rightarrow> Inr (Some g)
      | TopsNotIterable \<Rightarrow> Inl TypeError
      | TopsIterable xs \<Rightarrow>
          let check_types1 =
                (case check_types of None \<Rightarrow> [NodeClass, TensorClass] | Some cs \<Rightarrow> cs)
          in (case get_unique_graph_loop check_types1 xs None of
                Inl e \<Rightarrow> Inl e
              | Inr g \<Rightarrow>
                  if g = None \<and> \<not> none_if_empty then Inl ValueError else Inr g))"

subsection \<open>Control outputs\<close>

text \<open>
  A node of a graph carries its name and the names of its control inputs; a graph carries
  its nodes, in the order \<^verbatim>\<open>graph.nodes\<close> lists them, and its version counter. Nodes are
  referred to by name, names being unique within a graph.
\<close>

record pge_node =
  name :: string
  control_inputs :: "string list"

record pge_graph =
  nodes :: "pge_node list"
  version :: nat

text \<open>
  The object \<^verbatim>\<open>ControlOutputs\<close>: the dictionary \<^verbatim>\<open>_control_outputs\<close> and \<^verbatim>\<open>_version\<close>
  (\<^verbatim>\<open>None\<close> before the first build). The field \<^verbatim>\<open>_graph\<close> is a reference to the graph
  object, which other code mutates; each method therefore takes the graph's current state
  as its first argument.
\<close>

record control_outputs =
  control_outputs_dict :: "string \<rightharpoonup> string list"
  build_version :: "nat option"

text \<open>
  The body of the inner loop of \<^verbatim>\<open>_build\<close>:
  \<^verbatim>\<open>
    if control_input not in self._control_outputs:
      self._control_outputs[control_input] = []
    if node not in self._control_outputs[control_input]:
      self._control_outputs[control_input].append(node)
  \<close>
\<close>

definition add_control_output :: "string \<Rightarrow> string \<Rightarrow> (string \<rightharpoonup> string list) \<Rightarrow> (string \<rightharpoonup> string list)" where
  "add_control_output node control_input d =
     (let d1 = (if d control_input = None then d(control_input \<mapsto> []) else d)
      in (case d1 control_input of
            None \<Rightarrow> d1
          | Some outs \<Rightarrow>
              if node \<notin> set outs then d1(control_input \<mapsto> outs @ [node]) else d1))"

definition ControlOutputs_build :: "pge_graph \<Rightarrow> control_outputs \<Rightarrow> control_outputs" where
  "ControlOutputs_build g self =
     self\<lparr>control_outputs_dict :=
            fold (\<lambda>node. fold (add_control_output (name node)) (control_inputs node))
              (nodes g) Map.empty,
          build_version := Some (version g)\<rparr>"

definition ControlOutputs_init :: "pge_graph \<Rightarrow> control_outputs" where
  "ControlOutputs_init g =
     ControlOutputs_build g \<lparr>control_outputs_dict = Map.empty, build_version = None\<rparr>"

definition ControlOutputs_update :: "pge_graph \<Rightarrow> control_outputs \<Rightarrow> control_outputs" where
  "ControlOutputs_update g self =
     (if build_version self \<noteq> Some (version g) then ControlOutputs_build g self else self)"

text \<open>\<^verbatim>\<open>get\<close> returns the recorded list, or the empty tuple for a node that is no key.\<close>

definition ControlOutputs_get :: "pge_graph \<Rightarrow> control_outputs \<Rightarrow> string \<Rightarrow> string list" where
  "ControlOutputs_get g self op =
     (case control_outputs_dict self op of Some outs \<Rightarrow> outs | None \<Rightarrow> [])"

text \<open>The list a dictionary of control outputs records for a node.\<close>

definition recorded :: "(string \<rightharpoonup> string list) \<Rightarrow> string \<Rightarrow> string list" where
  "recorded d n = (case d n of Some outs \<Rightarrow> outs | None \<Rightarrow> [])"

text \<open>
  Two states of one graph: nodes \<open>d\<close> and \<open>c\<close> without control edges, and the same graph
  after the control edge from \<open>d\<close> to \<open>c\<close> has been added and the version has advanced.
\<close>

definition example_before :: pge_graph where
  "example_before = \<lparr>nodes = [\<lparr>name = ''d'', control_inputs = []\<rparr>,
      \<lparr>name = ''c'', control_inputs = []\<rparr>], version = 1\<rparr>"

definition example_after :: pge_graph where
  "example_after = \<lparr>nodes = [\<lparr>name = ''d'', control_inputs = []\<rparr>,
      \<lparr>name = ''c'', control_inputs = [''d'']\<rparr>], version = 2\<rparr>"

subsection \<open>Corresponding elements of another graph\<close>

text \<open>
  The destination graph is used through two lookups, \<^verbatim>\<open>dst_graph.get_tensor_by_name(name)\<close>
  and \<^verbatim>\<open>dst_graph[name]\<close>; both are given by the names the graph knows and raise for a
  name that is absent.
\<close>

record graph_names =
  tensors_by_name :: "string \<rightharpoonup> py_obj"
  nodes_by_name :: "string \<rightharpoonup> py_obj"

definition get_tensor_by_name :: "graph_names \<Rightarrow> string \<Rightarrow> error + py_obj" where
  "get_tensor_by_name g nm = (case tensors_by_name g nm of None \<Rightarrow> Inl KeyError | Some t \<Rightarrow> Inr t)"

definition graph_getitem :: "graph_names \<Rightarrow> string \<Rightarrow> error + py_obj" where
  "graph_getitem g nm = (case nodes_by_name g nm of None \<Rightarrow> Inl KeyError | Some n \<Rightarrow> Inr n)"

text \<open>
  The methods of \<^verbatim>\<open>str\<close> that test one string against another, by attribute name. Reading
  any other attribute of a string raises \<open>AttributeError\<close>.
\<close>

definition endswith :: "string \<Rightarrow> string \<Rightarrow> bool" where
  "endswith s p = (drop (length s - length p) s = p \<and> length p \<le> length s)"

definition str_getattr :: "string \<Rightarrow> error + (string \<Rightarrow> string \<Rightarrow> bool)" where
  "str_getattr attr =
     (if attr = ''startswith'' then Inr startswith
      else if attr = ''endswith'' then Inr endswith
      else Inl AttributeError)"

text \<open>
  \<^verbatim>\<open>
  src_name = target.name
  if src_scope:
    src_scope = scope_finalize(src_scope)
    if not src_name.startswidth(src_scope):
      raise ValueError(...)
    src_name = src_name[len(src_scope):]
  dst_name = src_name
  if dst_scope:
    dst_scope = scope_finalize(dst_scope)
    dst_name = dst_scope + dst_name
  if isinstance(target, tensor.Tensor):
    return dst_graph.get_tensor_by_name(dst_name)
  if isinstance(target, node.Node):
    return dst_graph[dst_name]
  raise TypeError(...)
  \<close>
  The attribute that the source reads from the string \<^verbatim>\<open>src_name\<close> is spelled
  \<^verbatim>\<open>startswidth\<close>.
\<close>

definition strip_src_scope :: "string \<Rightarrow> string \<Rightarrow> error + string" where
  "strip_src_scope src_name src_scope =
     (if src_scope \<noteq> [] then
        (let src_scope1 = scope_finalize src_scope in
         case str_getattr ''startswidth'' of
           Inl e \<Rightarrow> Inl e
         | Inr method \<Rightarrow>
             if \<not> method src_name src_scope1 then Inl ValueError
             else Inr (drop (length src_scope1) src_name))
      else Inr src_name)"

definition find_corresponding_elem :: "py_obj \<Rightarrow> graph_names \<Rightarrow> string \<Rightarrow> string \<Rightarrow> error + py_obj" where
  "find_corresponding_elem target dst_graph dst_scope src_scope =
     (case getattr_name target of
        Inl e \<Rightarrow> Inl e
      | Inr src_name \<Rightarrow>
          (case strip_src_scope src_name src_scope of
             Inl e \<Rightarrow> Inl e
           | Inr src_name1 \<Rightarrow>
               (let dst_name =
                      (if dst_scope \<noteq> [] then scope_finalize dst_scope @ src_name1 else src_name1)
                in if isinstance_Tensor target then get_tensor_by_name dst_graph dst_name
                   else if isinstance_Node target then graph_getitem dst_graph dst_name
                   else Inl TypeError)))"

text \<open>A destination graph with the single node \<open>b\<close>, for the examples.\<close>

definition example_dst :: graph_names where
  "example_dst = \<lparr>tensors_by_name = Map.empty, nodes_by_name = [''b'' \<mapsto> Node 2 ''b'']\<rparr>"

subsection \<open>Generators\<close>

text \<open>
  Consuming a generator expression or a list comprehension \<^verbatim>\<open>(f(x) for x in xs)\<close>: the
  values in order, or the first exception.
\<close>

fun generate :: "('a \<Rightarrow> error + 'b) \<Rightarrow> 'a list \<Rightarrow> error + 'b list" where
  "generate f [] = Inr []"
| "generate f (x # xs) =
     (case f x of
        Inl e \<Rightarrow> Inl e
      | Inr y \<Rightarrow> (case generate f xs of Inl e \<Rightarrow> Inl e | Inr ys \<Rightarrow> Inr (y # ys)))"

subsection \<open>Attribute values\<close>

text \<open>
  The protocol buffer \<^verbatim>\<open>tf.AttrValue\<close> holds at most one field of its \<^verbatim>\<open>oneof value\<close>:
  \<^verbatim>\<open>s\<close>, \<^verbatim>\<open>i\<close>, \<^verbatim>\<open>f\<close>, \<^verbatim>\<open>b\<close>, \<^verbatim>\<open>type\<close>, \<^verbatim>\<open>shape\<close>, \<^verbatim>\<open>tensor\<close>, \<^verbatim>\<open>list\<close>, \<^verbatim>\<open>func\<close> or
  \<^verbatim>\<open>placeholder\<close>; \<^verbatim>\<open>HasField(x)\<close> holds for the populated one only. A \<^verbatim>\<open>ListValue\<close> has
  one repeated field for each scalar kind. The codec of \<^verbatim>\<open>util.py\<close> hands every payload to
  a conversion of TensorFlow or of the protocol buffer runtime, and each of them can raise;
  the conversions are modelled with the exceptions that they raise.
\<close>

subsubsection \<open>Text and bytes\<close>

text \<open>
  A Python \<^verbatim>\<open>str\<close> is the list of its code points, numbers below \<open>0x110000\<close>; a
  \<^verbatim>\<open>bytes\<close> object is the list of its bytes, numbers below \<open>0x100\<close>.
  \<^verbatim>\<open>tf.compat.as_bytes(s)\<close> is \<^verbatim>\<open>s.encode("utf-8")\<close>, which raises \<open>UnicodeEncodeError\<close>
  on a surrogate code point; \<^verbatim>\<open>tf.compat.as_str(b)\<close> is \<^verbatim>\<open>b.decode("utf-8")\<close>, which raises
  \<open>UnicodeDecodeError\<close> on bytes that are not well-formed UTF-8 (a wrong lead byte, a
  missing or wrong continuation byte, an overlong form, an encoded surrogate, a code point
  above \<open>0x10FFFF\<close>). Both exceptions are subclasses of \<open>ValueError\<close>.
\<close>

type_synonym bytes = "nat list"

type_synonym unicode = "nat list"

definition surrogate :: "nat \<Rightarrow> bool" where
  "surrogate c = (0xD800 \<le> c \<and> c \<le> 0xDFFF)"

definition utf8_encode :: "nat \<Rightarrow> bytes" where
  "utf8_encode c =
     (if c < 0x80 then [c]
      else if c < 0x800 then [0xC0 + c div 0x40, 0x80 + c mod 0x40]
      else if c < 0x10000 then
        [0xE0 + c div 0x1000, 0x80 + c div 0x40 mod 0x40, 0x80 + c mod 0x40]
      else
        [0xF0 + c div 0x40000, 0x80 + c div 0x1000 mod 0x40, 0x80 + c div 0x40 mod 0x40,
         0x80 + c mod 0x40])"

definition as_bytes :: "unicode \<Rightarrow> error + bytes" where
  "as_bytes s =
     (if list_ex surrogate s then Inl UnicodeEncodeError
      else Inr (concat (map utf8_encode s)))"

text \<open>
  The well-formed byte sequences of UTF-8: after the lead byte \<open>b0\<close> the second byte lies
  in a range that depends on \<open>b0\<close>, every further byte is a continuation byte.
\<close>

definition second_byte_range :: "nat \<Rightarrow> nat \<times> nat" where
  "second_byte_range b0 =
     (if b0 = 0xE0 then (0xA0, 0xBF)
      else if b0 = 0xED then (0x80, 0x9F)
      else if b0 = 0xF0 then (0x90, 0xBF)
      else if b0 = 0xF4 then (0x80, 0x8F)
      else (0x80, 0xBF))"

definition second_byte :: "nat \<Rightarrow> nat \<Rightarrow> bool" where
  "second_byte b0 b1 = (fst (second_byte_range b0) \<le> b1 \<and> b1 \<le> snd (second_byte_range b0))"

definition continuation :: "nat \<Rightarrow> bool" where
  "continuation b = (0x80 \<le> b \<and> b \<le> 0xBF)"

fun utf8_valid :: "bytes \<Rightarrow> bool" where
  "utf8_valid [] = True"
| "utf8_valid (b0 # bs) =
     (if b0 < 0x80 then utf8_valid bs
      else if 0xC2 \<le> b0 \<and> b0 \<le> 0xDF then
        (case bs of
           b1 # rest \<Rightarrow> continuation b1 \<and> utf8_valid rest
         | _ \<Rightarrow> False)
      else if 0xE0 \<le> b0 \<and> b0 \<le> 0xEF then
        (case bs of
           b1 # b2 # rest \<Rightarrow> second_byte b0 b1 \<and> continuation b2 \<and> utf8_valid rest
         | _ \<Rightarrow> False)
      else if 0xF0 \<le> b0 \<and> b0 \<le> 0xF4 then
        (case bs of
           b1 # b2 # b3 # rest \<Rightarrow>
             second_byte b0 b1 \<and> continuation b2 \<and> continuation b3 \<and> utf8_valid rest
         | _ \<Rightarrow> False)
      else False)"

text \<open>The code points of a well-formed byte sequence.\<close>

fun utf8_decode :: "bytes \<Rightarrow> unicode" where
  "utf8_decode [] = []"
| "utf8_decode (b0 # bs) =
     (if b0 < 0x80 then b0 # utf8_decode bs
      else if b0 < 0xE0 then
        (case bs of
           b1 # rest \<Rightarrow> ((b0 - 0xC0) * 0x40 + (b1 - 0x80)) # utf8_decode rest
         | _ \<Rightarrow> [])
      else if b0 < 0xF0 then
        (case bs of
           b1 # b2 # rest \<Rightarrow>
             ((b0 - 0xE0) * 0x1000 + (b1 - 0x80) * 0x40 + (b2 - 0x80)) # utf8_decode rest
         | _ \<Rightarrow> [])
      else
        (case bs of
           b1 # b2 # b3 # rest \<Rightarrow>
             ((b0 - 0xF0) * 0x40000 + (b1 - 0x80) * 0x1000 + (b2 - 0x80) * 0x40 + (b3 - 0x80))
               # utf8_decode rest
         | _ \<Rightarrow> []))"

definition as_str :: "bytes \<Rightarrow> error + unicode" where
  "as_str b = (if utf8_valid b then Inr (utf8_decode b) else Inl UnicodeDecodeError)"

subsubsection \<open>Numbers\<close>

text \<open>
  The field \<^verbatim>\<open>i\<close> is a signed 64-bit integer, a Python \<^verbatim>\<open>int\<close> is unbounded: assigning or
  appending a number outside the range raises \<open>ValueError\<close> in the protocol buffer
  runtime. The field \<^verbatim>\<open>f\<close> is a 32-bit float, a Python \<^verbatim>\<open>float\<close> a 64-bit one; storing
  narrows the number without raising, and reading widens it. The two formats and the
  narrowing, which depends on the runtime, are left unspecified.
\<close>

definition fits_int64 :: "int \<Rightarrow> bool" where
  "fits_int64 n = (- (2 ^ 63) \<le> n \<and> n < 2 ^ 63)"

definition set_int64 :: "int \<Rightarrow> error + int" where
  "set_int64 n = (if fits_int64 n then Inr n else Inl ValueError)"

typedecl py_float

typedecl float32

definition float32_of_float :: "py_float \<Rightarrow> float32" where
  "float32_of_float = undefined"

definition float_of_float32 :: "float32 \<Rightarrow> py_float" where
  "float_of_float32 = undefined"

subsubsection \<open>Data types, shapes and tensors\<close>

text \<open>
  A \<^verbatim>\<open>tf.DType\<close> is identified by its number in the enumeration \<^verbatim>\<open>DataType\<close>. The
  constructor \<^verbatim>\<open>tf.DType(n)\<close> raises \<open>TypeError\<close> unless \<open>n\<close> is a member of the
  enumeration other than \<^verbatim>\<open>DT_INVALID = 0\<close>. The members are those of TensorFlow 1.x, for
  which the module is written: \<open>1\<close> to \<open>23\<close>, and \<open>101\<close> to \<open>123\<close> for the reference
  types; later versions add members, and \<open>0\<close> is invalid in all of them.
\<close>

datatype dtype = DType (as_datatype_enum: int)

definition is_DataType :: "int \<Rightarrow> bool" where
  "is_DataType n = ((1 \<le> n \<and> n \<le> 23) \<or> (101 \<le> n \<and> n \<le> 123))"

definition DType_new :: "int \<Rightarrow> error + dtype" where
  "DType_new n = (if is_DataType n then Inr (DType n) else Inl TypeError)"

text \<open>
  A \<^verbatim>\<open>tf.TensorShape\<close> has an unknown rank (\<open>None\<close>) or a list of dimensions, each unknown
  or a natural number. Its message \<^verbatim>\<open>TensorShapeProto\<close> has the flag \<^verbatim>\<open>unknown_rank\<close> and
  the sizes of the dimensions, signed 64-bit integers with \<open>-1\<close> for an unknown one.
  \<^verbatim>\<open>as_proto()\<close> builds the message, so a dimension beyond the 64-bit range raises
  \<open>ValueError\<close>; \<^verbatim>\<open>tf.TensorShape(proto)\<close> reads it, and in TensorFlow 1.x raises
  \<open>ValueError\<close> for a size below \<open>-1\<close>.
\<close>

datatype tensor_shape = TensorShape "nat option list option"

datatype tensor_shape_proto = TensorShapeProto (unknown_rank: bool) (dim_sizes: "int list")

fun dim_size :: "nat option \<Rightarrow> int" where
  "dim_size None = - 1"
| "dim_size (Some n) = int n"

fun as_proto :: "tensor_shape \<Rightarrow> error + tensor_shape_proto" where
  "as_proto (TensorShape None) = Inr (TensorShapeProto True [])"
| "as_proto (TensorShape (Some ds)) =
     (case generate (\<lambda>d. set_int64 (dim_size d)) ds of
        Inl e \<Rightarrow> Inl e
      | Inr sizes \<Rightarrow> Inr (TensorShapeProto False sizes))"

definition as_dimension :: "int \<Rightarrow> error + nat option" where
  "as_dimension n =
     (if n = - 1 then Inr None
      else if n < 0 then Inl ValueError
      else Inr (Some (nat n)))"

definition TensorShape_of_proto :: "tensor_shape_proto \<Rightarrow> error + tensor_shape" where
  "TensorShape_of_proto p =
     (if unknown_rank p then Inr (TensorShape None)
      else case generate as_dimension (dim_sizes p) of
             Inl e \<Rightarrow> Inl e
           | Inr ds \<Rightarrow> Inr (TensorShape (Some ds)))"

text \<open>
  The codec never looks into a NumPy array or into a \<^verbatim>\<open>TensorProto\<close>: it hands them to
  \<^verbatim>\<open>tf.make_tensor_proto\<close> and to \<^verbatim>\<open>tf.make_ndarray\<close>. The shape, the element type and
  the elements of a dense array are a value of the unspecified type \<open>array_data\<close>. An array
  is either one that \<^verbatim>\<open>tf.make_tensor_proto\<close> converts, or one on which it raises (a
  \<open>TypeError\<close> for an element type that TensorFlow does not have, a \<open>ValueError\<close> for a
  content of 2GB or more), kept with that exception; a message is either the message of an
  array, or one on which \<^verbatim>\<open>tf.make_ndarray\<close> raises (a \<open>TypeError\<close> for the empty message
  \<^verbatim>\<open>TensorProto()\<close>, whose \<^verbatim>\<open>dtype\<close> is \<^verbatim>\<open>DT_INVALID\<close>), kept with that exception.
\<close>

typedecl array_data

datatype ndarray = NdArray array_data | NdArray_unconvertible error

datatype tensor_proto = TensorProto array_data | TensorProto_malformed error

fun make_tensor_proto :: "ndarray \<Rightarrow> error + tensor_proto" where
  "make_tensor_proto (NdArray d) = Inr (TensorProto d)"
| "make_tensor_proto (NdArray_unconvertible e) = Inl e"

fun make_ndarray :: "tensor_proto \<Rightarrow> error + ndarray" where
  "make_ndarray (TensorProto d) = Inr (NdArray d)"
| "make_ndarray (TensorProto_malformed e) = Inl e"

subsubsection \<open>The codec\<close>

record list_value =
  lv_s :: "bytes list"
  lv_i :: "int list"
  lv_f :: "float32 list"
  lv_b :: "bool list"
  lv_type :: "int list"
  lv_shape :: "tensor_shape_proto list"
  lv_tensor :: "tensor_proto list"

definition ListValue :: list_value where
  "ListValue = \<lparr>lv_s = [], lv_i = [], lv_f = [], lv_b = [], lv_type = [], lv_shape = [],
     lv_tensor = []\<rparr>"

datatype attr_value =
    AttrValue_unset
  | AttrValue_s bytes
  | AttrValue_i int
  | AttrValue_f float32
  | AttrValue_b bool
  | AttrValue_type int
  | AttrValue_shape tensor_shape_proto
  | AttrValue_tensor tensor_proto
  | AttrValue_list list_value
  | AttrValue_func string
  | AttrValue_placeholder string

text \<open>
  The Python values given to the codec. \<open>PyOther\<close> is an object of any class the codec
  does not name (\<^verbatim>\<open>None\<close>, a dictionary, ...).
\<close>

datatype py_value =
    PyStr unicode
  | PyInt int
  | PyFloat py_float
  | PyBool bool
  | PyDType dtype
  | PyTensorShape tensor_shape
  | PyNdarray ndarray
  | PyList "py_value list"
  | PyTuple "py_value list"
  | PyAttrValue attr_value
  | PyOther

text \<open>
  \<^verbatim>\<open>_python_type_to_attr_list_elem(list_value, elem)\<close> appends to one repeated field of the
  list. The tests are \<^verbatim>\<open>isinstance\<close> tests in the order str, int, float, bool, DType,
  TensorShape, ndarray; \<^verbatim>\<open>bool\<close> is a subclass of \<^verbatim>\<open>int\<close>, so a boolean is taken by the
  \<^verbatim>\<open>int\<close> test and stored in the integer field, and the \<^verbatim>\<open>bool\<close> branch is never reached.
  An exception of the conversion of the element leaves the function before the list is
  changed.
\<close>

definition int_of_bool :: "bool \<Rightarrow> int" where
  "int_of_bool b = (if b then 1 else 0)"

fun python_type_to_attr_list_elem :: "list_value \<Rightarrow> py_value \<Rightarrow> error + list_value" where
  "python_type_to_attr_list_elem lv (PyStr s) =
     (case as_bytes s of
        Inl e \<Rightarrow> Inl e
      | Inr b \<Rightarrow> Inr (lv\<lparr>lv_s := lv_s lv @ [b]\<rparr>))"
| "python_type_to_attr_list_elem lv (PyInt n) =
     (case set_int64 n of
        Inl e \<Rightarrow> Inl e
      | Inr i \<Rightarrow> Inr (lv\<lparr>lv_i := lv_i lv @ [i]\<rparr>))"
| "python_type_to_attr_list_elem lv (PyBool b) =
     (case set_int64 (int_of_bool b) of
        Inl e \<Rightarrow> Inl e
      | Inr i \<Rightarrow> Inr (lv\<lparr>lv_i := lv_i lv @ [i]\<rparr>))"
| "python_type_to_attr_list_elem lv (PyFloat x) =
     Inr (lv\<lparr>lv_f := lv_f lv @ [float32_of_float x]\<rparr>)"
| "python_type_to_attr_list_elem lv (PyDType d) =
     Inr (lv\<lparr>lv_type := lv_type lv @ [as_datatype_enum d]\<rparr>)"
| "python_type_to_attr_list_elem lv (PyTensorShape sh) =
     (case as_proto sh of
        Inl e \<Rightarrow> Inl e
      | Inr p \<Rightarrow> Inr (lv\<lparr>lv_shape := lv_shape lv @ [p]\<rparr>))"
| "python_type_to_attr_list_elem lv (PyNdarray a) =
     (case make_tensor_proto a of
        Inl e \<Rightarrow> Inl e
      | Inr p \<Rightarrow> Inr (lv\<lparr>lv_tensor := lv_tensor lv @ [p]\<rparr>))"
| "python_type_to_attr_list_elem lv (PyList vs) = Inl ValueError"
| "python_type_to_attr_list_elem lv (PyTuple vs) = Inl ValueError"
| "python_type_to_attr_list_elem lv (PyAttrValue a) = Inl ValueError"
| "python_type_to_attr_list_elem lv PyOther = Inl ValueError"

text \<open>The loop \<^verbatim>\<open>for elem in value\<close> over a non-empty sequence.\<close>

fun attr_list_elems :: "list_value \<Rightarrow> py_value list \<Rightarrow> error + list_value" where
  "attr_list_elems lv [] = Inr lv"
| "attr_list_elems lv (elem # elems) =
     (case python_type_to_attr_list_elem lv elem of
        Inl e \<Rightarrow> Inl e
      | Inr lv1 \<Rightarrow> attr_list_elems lv1 elems)"

definition attr_value_of_sequence :: "py_value list \<Rightarrow> error + attr_value" where
  "attr_value_of_sequence vs =
     (if length vs = 0 then Inr (AttrValue_list ListValue)
      else case attr_list_elems ListValue vs of
             Inl e \<Rightarrow> Inl e
           | Inr lv \<Rightarrow> Inr (AttrValue_list lv))"

fun python_type_to_attr_value :: "py_value \<Rightarrow> error + attr_value" where
  "python_type_to_attr_value (PyList vs) = attr_value_of_sequence vs"
| "python_type_to_attr_value (PyTuple vs) = attr_value_of_sequence vs"
| "python_type_to_attr_value (PyAttrValue a) = Inr a"
| "python_type_to_attr_value (PyStr s) =
     (case as_bytes s of Inl e \<Rightarrow> Inl e | Inr b \<Rightarrow> Inr (AttrValue_s b))"
| "python_type_to_attr_value (PyInt n) =
     (case set_int64 n of Inl e \<Rightarrow> Inl e | Inr i \<Rightarrow> Inr (AttrValue_i i))"
| "python_type_to_attr_value (PyBool b) =
     (case set_int64 (int_of_bool b) of Inl e \<Rightarrow> Inl e | Inr i \<Rightarrow> Inr (AttrValue_i i))"
| "python_type_to_attr_value (PyFloat x) = Inr (AttrValue_f (float32_of_float x))"
| "python_type_to_attr_value (PyDType d) = Inr (AttrValue_type (as_datatype_enum d))"
| "python_type_to_attr_value (PyTensorShape sh) =
     (case as_proto sh of Inl e \<Rightarrow> Inl e | Inr p \<Rightarrow> Inr (AttrValue_shape p))"
| "python_type_to_attr_value (PyNdarray a) =
     (case make_tensor_proto a of Inl e \<Rightarrow> Inl e | Inr p \<Rightarrow> Inr (AttrValue_tensor p))"
| "python_type_to_attr_value PyOther = Inl ValueError"

text \<open>
  \<^verbatim>\<open>attr_value_to_python_type\<close> tests \<^verbatim>\<open>HasField\<close> for \<^verbatim>\<open>s\<close>, \<^verbatim>\<open>i\<close>, \<^verbatim>\<open>f\<close>, \<^verbatim>\<open>b\<close>,
  \<^verbatim>\<open>type\<close>, \<^verbatim>\<open>shape\<close> and \<^verbatim>\<open>tensor\<close>, and raises otherwise.
\<close>

fun attr_value_to_python_type :: "attr_value \<Rightarrow> error + py_value" where
  "attr_value_to_python_type (AttrValue_s x) =
     (case as_str x of Inl e \<Rightarrow> Inl e | Inr s \<Rightarrow> Inr (PyStr s))"
| "attr_value_to_python_type (AttrValue_i n) = Inr (PyInt n)"
| "attr_value_to_python_type (AttrValue_f x) = Inr (PyFloat (float_of_float32 x))"
| "attr_value_to_python_type (AttrValue_b b) = Inr (PyBool b)"
| "attr_value_to_python_type (AttrValue_type n) =
     (case DType_new n of Inl e \<Rightarrow> Inl e | Inr d \<Rightarrow> Inr (PyDType d))"
| "attr_value_to_python_type (AttrValue_shape p) =
     (case TensorShape_of_proto p of Inl e \<Rightarrow> Inl e | Inr sh \<Rightarrow> Inr (PyTensorShape sh))"
| "attr_value_to_python_type (AttrValue_tensor p) =
     (case make_ndarray p of Inl e \<Rightarrow> Inl e | Inr a \<Rightarrow> Inr (PyNdarray a))"
| "attr_value_to_python_type (AttrValue_list lv) = Inl ValueError"
| "attr_value_to_python_type (AttrValue_func x) = Inl ValueError"
| "attr_value_to_python_type (AttrValue_placeholder x) = Inl ValueError"
| "attr_value_to_python_type AttrValue_unset = Inl ValueError"

text \<open>
  The native types, and those that have a field: every scalar kind has a field of
  \<^verbatim>\<open>AttrValue\<close> and of \<^verbatim>\<open>ListValue\<close>; a list or a tuple has the field \<^verbatim>\<open>list\<close> of
  \<^verbatim>\<open>AttrValue\<close> and none in \<^verbatim>\<open>ListValue\<close>; an \<^verbatim>\<open>AttrValue\<close> is accepted as it is.
\<close>

datatype py_type =
    T_str | T_int | T_float | T_bool | T_DType | T_TensorShape | T_ndarray
  | T_list | T_tuple | T_AttrValue | T_other

fun type_of :: "py_value \<Rightarrow> py_type" where
  "type_of (PyStr s) = T_str"
| "type_of (PyInt n) = T_int"
| "type_of (PyFloat x) = T_float"
| "type_of (PyBool b) = T_bool"
| "type_of (PyDType d) = T_DType"
| "type_of (PyTensorShape sh) = T_TensorShape"
| "type_of (PyNdarray a) = T_ndarray"
| "type_of (PyList vs) = T_list"
| "type_of (PyTuple vs) = T_tuple"
| "type_of (PyAttrValue a) = T_AttrValue"
| "type_of PyOther = T_other"

definition scalar_types :: "py_type list" where
  "scalar_types = [T_str, T_int, T_float, T_bool, T_DType, T_TensorShape, T_ndarray]"

definition has_list_field :: "py_type \<Rightarrow> bool" where
  "has_list_field t = (t \<in> set scalar_types)"

definition has_attr_field :: "py_type \<Rightarrow> bool" where
  "has_attr_field t = (t \<in> set scalar_types \<or> t = T_list \<or> t = T_tuple \<or> t = T_AttrValue)"

fun sequence_items :: "py_value \<Rightarrow> py_value list option" where
  "sequence_items (PyList vs) = Some vs"
| "sequence_items (PyTuple vs) = Some vs"
| "sequence_items v = None"

text \<open>The populated field of an \<^verbatim>\<open>AttrValue\<close>, by name (\<^verbatim>\<open>WhichOneof("value")\<close>).\<close>

fun WhichOneof :: "attr_value \<Rightarrow> string option" where
  "WhichOneof AttrValue_unset = None"
| "WhichOneof (AttrValue_s x) = Some ''s''"
| "WhichOneof (AttrValue_i x) = Some ''i''"
| "WhichOneof (AttrValue_f x) = Some ''f''"
| "WhichOneof (AttrValue_b x) = Some ''b''"
| "WhichOneof (AttrValue_type x) = Some ''type''"
| "WhichOneof (AttrValue_shape x) = Some ''shape''"
| "WhichOneof (AttrValue_tensor x) = Some ''tensor''"
| "WhichOneof (AttrValue_list x) = Some ''list''"
| "WhichOneof (AttrValue_func x) = Some ''func''"
| "WhichOneof (AttrValue_placeholder x) = Some ''placeholder''"

definition recognized_fields :: "string list" where
  "recognized_fields = [''s'', ''i'', ''f'', ''b'', ''type'', ''shape'', ''tensor'']"

text \<open>
  The exception, if any, of the conversion of the payload of a value that has a field: a
  text with a surrogate, an integer or a dimension of a shape outside the signed 64-bit
  range, an array that TensorFlow does not convert.
\<close>

fun conversion_error :: "py_value \<Rightarrow> error option" where
  "conversion_error (PyStr s) = (if list_ex surrogate s then Some UnicodeEncodeError else None)"
| "conversion_error (PyInt n) = (if fits_int64 n then None else Some ValueError)"
| "conversion_error (PyTensorShape (TensorShape (Some ds))) =
     (if list_all (\<lambda>d. fits_int64 (dim_size d)) ds then None else Some ValueError)"
| "conversion_error (PyNdarray (NdArray_unconvertible e)) = Some e"
| "conversion_error v = None"

text \<open>
  The exception that the specification of the codec gives for a value: for a list or a
  tuple the one of its first element that has no field in \<^verbatim>\<open>ListValue\<close> (a \<open>ValueError\<close>)
  or whose payload does not convert; for another value a \<open>ValueError\<close> when its type has no
  field in \<^verbatim>\<open>AttrValue\<close>, and otherwise the exception of the conversion of its payload.
\<close>

definition elem_error :: "py_value \<Rightarrow> error option" where
  "elem_error v = (if has_list_field (type_of v) then conversion_error v else Some ValueError)"

fun first_error :: "('a \<Rightarrow> error option) \<Rightarrow> 'a list \<Rightarrow> error option" where
  "first_error f [] = None"
| "first_error f (x # xs) = (case f x of Some e \<Rightarrow> Some e | None \<Rightarrow> first_error f xs)"

definition value_error :: "py_value \<Rightarrow> error option" where
  "value_error v =
     (case sequence_items v of
        Some elems \<Rightarrow> first_error elem_error elems
      | None \<Rightarrow> if has_attr_field (type_of v) then conversion_error v else Some ValueError)"

text \<open>
  The messages whose populated field holds a payload that converts in every version of
  TensorFlow: bytes that are well-formed UTF-8, the number of a data type, a shape of
  unknown rank or with sizes from \<open>-1\<close> on, the message of an array.
\<close>

fun well_formed :: "attr_value \<Rightarrow> bool" where
  "well_formed (AttrValue_s b) = utf8_valid b"
| "well_formed (AttrValue_type n) = is_DataType n"
| "well_formed (AttrValue_shape p) = (unknown_rank p \<or> list_all (\<lambda>n. - 1 \<le> n) (dim_sizes p))"
| "well_formed (AttrValue_tensor (TensorProto_malformed e)) = False"
| "well_formed a = True"

subsection \<open>Trees of Python objects\<close>

text \<open>
  The values that \<^verbatim>\<open>flatten_tree\<close> and \<^verbatim>\<open>transform_tree\<close> walk: an object on which
  \<^verbatim>\<open>iter\<close> fails (a node, a tensor, \<^verbatim>\<open>None\<close>, a number), a string, a list, a tuple, a named
  tuple with its class name and its fields in order, a dictionary with its items in
  iteration order, or any other iterable with the elements it yields. The type is
  coinductive, so that it also holds the containers that contain themselves, such as the
  list made by \<^verbatim>\<open>l = []; l.append(l)\<close>: for a function that only reads the container, such
  a list is the list whose single element is that list again.

  The iterables of the type are those that the interpreter itself iterates: the built-in
  \<^verbatim>\<open>str\<close>, \<^verbatim>\<open>list\<close>, \<^verbatim>\<open>tuple\<close> and \<^verbatim>\<open>dict\<close>, the classes made by
  \<^verbatim>\<open>collections.namedtuple\<close>, and for \<open>PIterable\<close> a set, a frozen set or a view of a
  dictionary. For them \<^verbatim>\<open>iter(obj)\<close> runs no Python code, so it needs no frame of the
  interpreter's stack and cannot fail for lack of one. An object whose \<^verbatim>\<open>__iter__\<close> is
  written in Python, such as the \<^verbatim>\<open>ListView\<close> of this module, is not a value of the type:
  its \<^verbatim>\<open>__iter__\<close> needs a frame, and when the recursion limit is reached inside
  \<^verbatim>\<open>is_iterable\<close> the \<open>RecursionError\<close> is raised within the \<^verbatim>\<open>try\<close> statement, is caught
  by \<^verbatim>\<open>except Exception\<close>, and the object is taken for a leaf.
\<close>

codatatype py_tree =
    Obj py_obj
  | Str string
  | PList "py_tree list"
  | PTuple "py_tree list"
  | PNamedTuple string "(string \<times> py_tree) list"
  | PDict "(py_tree \<times> py_tree) list"
  | PIterable "py_tree list"

text \<open>
  \<^verbatim>\<open>iter(obj)\<close>, as the list of the elements the iterator yields, or the \<open>TypeError\<close> of
  an object that is not iterable. A string yields its characters, each a string of length
  one; a dictionary yields its keys.
\<close>

fun py_iter :: "py_tree \<Rightarrow> error + py_tree list" where
  "py_iter (Obj x) = Inl TypeError"
| "py_iter (Str s) = Inr (map (\<lambda>c. Str [c]) s)"
| "py_iter (PList xs) = Inr xs"
| "py_iter (PTuple xs) = Inr xs"
| "py_iter (PNamedTuple cls flds) = Inr (map snd flds)"
| "py_iter (PDict items) = Inr (map fst items)"
| "py_iter (PIterable xs) = Inr xs"

fun isinstance_node :: "py_tree \<Rightarrow> bool" where
  "isinstance_node (Obj x) = isinstance_Node x"
| "isinstance_node t = False"

text \<open>
  \<^verbatim>\<open>
  def is_iterable(obj):
    if isinstance(obj, node.Node):
      return False
    try:
      _ = iter(obj)
    except Exception:
      return False
    return True
  \<close>
  For the values of \<open>py_tree\<close> the only exception of \<^verbatim>\<open>iter\<close> is the \<open>TypeError\<close> of an
  object that is not iterable.
\<close>

definition is_iterable :: "py_tree \<Rightarrow> bool" where
  "is_iterable obj =
     (if isinstance_node obj then False
      else (case py_iter obj of Inl e \<Rightarrow> False | Inr xs \<Rightarrow> True))"

fun isinstance_dict :: "py_tree \<Rightarrow> bool" where
  "isinstance_dict (PDict items) = True"
| "isinstance_dict t = False"

fun iteritems :: "py_tree \<Rightarrow> (py_tree \<times> py_tree) list" where
  "iteritems (PDict items) = items"
| "iteritems t = []"

text \<open>The elements that \<^verbatim>\<open>for child in tree\<close> binds, for an iterable \<open>tree\<close>.\<close>

definition elements :: "py_tree \<Rightarrow> py_tree list" where
  "elements t = (case py_iter t of Inl e \<Rightarrow> [] | Inr xs \<Rightarrow> xs)"

text \<open>
  A \<^verbatim>\<open>for\<close> loop whose body updates a state and may raise: the first exception ends the
  loop.
\<close>

fun for_each :: "('a \<Rightarrow> 's \<Rightarrow> error + 's) \<Rightarrow> 'a list \<Rightarrow> 's \<Rightarrow> error + 's" where
  "for_each body [] s = Inr s"
| "for_each body (x # xs) s =
     (case body x s of Inl e \<Rightarrow> Inl e | Inr s1 \<Rightarrow> for_each body xs s1)"

text \<open>
  \<^verbatim>\<open>
  def flatten_tree(tree, leaves=None):
    if leaves is None:
      leaves = []
    if isinstance(tree, dict):
      for _, child in iteritems(tree):
        flatten_tree(child, leaves)
    elif is_iterable(tree):
      for child in tree:
        flatten_tree(child, leaves)
    else:
      leaves.append(tree)
    return leaves
  \<close>
  The recursion of the source is not bounded by the source itself. The first argument of
  the model is the number of nested calls that the interpreter still allows (its recursion
  limit): a call beyond it raises \<open>RecursionError\<close>. The list \<open>leaves\<close> is passed
  along and returned.
\<close>

fun flatten_tree :: "nat \<Rightarrow> py_tree \<Rightarrow> py_tree list \<Rightarrow> error + py_tree list" where
  "flatten_tree 0 tree leaves = Inl RecursionError"
| "flatten_tree (Suc depth) tree leaves =
     (if isinstance_dict tree then
        for_each (\<lambda>(k, child). flatten_tree depth child) (iteritems tree) leaves
      else if is_iterable tree then
        for_each (flatten_tree depth) (elements tree) leaves
      else Inr (leaves @ [tree]))"

text \<open>The argument \<^verbatim>\<open>iterable_type\<close>, \<^verbatim>\<open>tuple\<close> by default, \<^verbatim>\<open>typically list or tuple\<close>.\<close>

datatype iterable_type = TupleType | ListType

fun construct :: "iterable_type \<Rightarrow> py_tree list \<Rightarrow> py_tree" where
  "construct TupleType xs = PTuple xs"
| "construct ListType xs = PList xs"

text \<open>
  \<^verbatim>\<open>tree._asdict()\<close> of a named tuple, and \<^verbatim>\<open>tree.__new__(type(tree), **kwargs)\<close>: every
  field is taken from the keyword arguments by its name; a missing or an unexpected keyword
  is a \<open>TypeError\<close>.
\<close>

definition asdict :: "(string \<times> py_tree) list \<Rightarrow> py_tree" where
  "asdict flds = PDict (map (\<lambda>(f, v). (Str f, v)) flds)"

definition namedtuple_new :: "string \<Rightarrow> string list \<Rightarrow> py_tree \<Rightarrow> error + py_tree" where
  "namedtuple_new cls field_names kwargs =
     (if \<not> isinstance_dict kwargs then Inl TypeError
      else if \<not> list_all (\<lambda>k. k \<in> set (map Str field_names)) (map fst (iteritems kwargs))
        then Inl TypeError
      else (case those (map (\<lambda>f. map_of (iteritems kwargs) (Str f)) field_names) of
              None \<Rightarrow> Inl TypeError
            | Some vs \<Rightarrow> Inr (PNamedTuple cls (zip field_names vs))))"

text \<open>
  \<^verbatim>\<open>
  def transform_tree(tree, fn, iterable_type=tuple):
    if is_iterable(tree):
      if isinstance(tree, dict):
        res = tree.__new__(type(tree))
        res.__init__(
          (k, transform_tree(child, fn)) for k, child in iteritems(tree))
        return res
      elif isinstance(tree, tuple):
        # NamedTuple?
        if hasattr(tree, "_asdict"):
          res = tree.__new__(type(tree), **transform_tree(tree._asdict(), fn))
        else:
          res = tree.__new__(type(tree),
                             (transform_tree(child, fn) for child in tree))
        return res
      elif isinstance(tree, collections.Sequence):
        res = tree.__new__(type(tree))
        res.__init__(transform_tree(child, fn) for child in tree)
        return res
      else:
        return iterable_type(transform_tree(child, fn) for child in tree)
    else:
      return fn(tree)
  \<close>
  The function \<open>fn\<close> may raise. The recursive calls leave \<^verbatim>\<open>iterable_type\<close> to its
  default. A list and a string are both instances of \<^verbatim>\<open>collections.Sequence\<close> (the
  abstract base class of sequences, under the name that the Python versions of the module
  give it): for a list, \<^verbatim>\<open>__init__\<close> fills the new list from the generator; for a string,
  \<^verbatim>\<open>str.__new__(str)\<close> is the empty string and \<^verbatim>\<open>__init__\<close> is the one of \<^verbatim>\<open>object\<close>,
  which ignores its argument for a class that defines \<^verbatim>\<open>__new__\<close>, so the generator is
  never started and the result is the empty string. As in \<open>flatten_tree\<close>, the first
  argument bounds the nesting of the calls.
\<close>

fun transform_tree ::
  "nat \<Rightarrow> py_tree \<Rightarrow> (py_tree \<Rightarrow> error + py_tree) \<Rightarrow> iterable_type \<Rightarrow> error + py_tree" where
  "transform_tree 0 tree fn iterable_type = Inl RecursionError"
| "transform_tree (Suc depth) tree fn iterable_type =
     (if is_iterable tree then
        (case tree of
           PDict items \<Rightarrow>
             (case generate (\<lambda>(k, child).
                      case transform_tree depth child fn TupleType of
                        Inl e \<Rightarrow> Inl e
                      | Inr c \<Rightarrow> Inr (k, c)) items of
                Inl e \<Rightarrow> Inl e
              | Inr items1 \<Rightarrow> Inr (PDict items1))
         | PNamedTuple cls flds \<Rightarrow>
             (case transform_tree depth (asdict flds) fn TupleType of
                Inl e \<Rightarrow> Inl e
              | Inr kwargs \<Rightarrow> namedtuple_new cls (map fst flds) kwargs)
         | PTuple xs \<Rightarrow>
             (case generate (\<lambda>child. transform_tree depth child fn TupleType) xs of
                Inl e \<Rightarrow> Inl e
              | Inr ys \<Rightarrow> Inr (PTuple ys))
         | PList xs \<Rightarrow>
             (case generate (\<lambda>child. transform_tree depth child fn TupleType) xs of
                Inl e \<Rightarrow> Inl e
              | Inr ys \<Rightarrow> Inr (PList ys))
         | Str s \<Rightarrow> Inr (Str [])
         | PIterable xs \<Rightarrow>
             (case generate (\<lambda>child. transform_tree depth child fn TupleType) xs of
                Inl e \<Rightarrow> Inl e
              | Inr ys \<Rightarrow> Inr (construct iterable_type ys))
         | Obj x \<Rightarrow> Inl TypeError)
      else fn tree)"

text \<open>
  \<^verbatim>\<open>find_corresponding(targets, dst_graph, dst_scope, src_scope)\<close> applies the lookup of one
  element to every leaf of a tree. A leaf of the tree is an object of \<open>py_obj\<close>.
\<close>

fun find_corresponding_leaf ::
  "graph_names \<Rightarrow> string \<Rightarrow> string \<Rightarrow> py_tree \<Rightarrow> error + py_tree" where
  "find_corresponding_leaf dst_graph dst_scope src_scope (Obj x) =
     (case find_corresponding_elem x dst_graph dst_scope src_scope of
        Inl e \<Rightarrow> Inl e
      | Inr y \<Rightarrow> Inr (Obj y))"
| "find_corresponding_leaf dst_graph dst_scope src_scope t = Inl AttributeError"

definition find_corresponding ::
  "nat \<Rightarrow> py_tree \<Rightarrow> graph_names \<Rightarrow> string \<Rightarrow> string \<Rightarrow> error + py_tree" where
  "find_corresponding depth targets dst_graph dst_scope src_scope =
     transform_tree depth targets (find_corresponding_leaf dst_graph dst_scope src_scope)
       TupleType"

text \<open>
  The members of a container, and containment: \<open>contains t u\<close> when \<open>u\<close> is \<open>t\<close> or is
  reached from \<open>t\<close> through members of containers. A string is no container.
\<close>

fun members :: "py_tree \<Rightarrow> py_tree list" where
  "members (Obj x) = []"
| "members (Str s) = []"
| "members (PList xs) = xs"
| "members (PTuple xs) = xs"
| "members (PNamedTuple cls flds) = map snd flds"
| "members (PDict items) = map snd items"
| "members (PIterable xs) = xs"

inductive contains :: "py_tree \<Rightarrow> py_tree \<Rightarrow> bool" where
  contains_self: "contains t t"
| contains_member: "c \<in> set (members t) \<Longrightarrow> contains c u \<Longrightarrow> contains t u"

text \<open>
  The members of a list, of a tuple, of a named tuple and of a dictionary, and the objects
  reached through members of these four kinds of containers only. Such a container is
  self-referential when it is reached from one of its own members.
\<close>

fun container_members :: "py_tree \<Rightarrow> py_tree list" where
  "container_members (PList xs) = xs"
| "container_members (PTuple xs) = xs"
| "container_members (PNamedTuple cls flds) = map snd flds"
| "container_members (PDict items) = map snd items"
| "container_members (Obj x) = []"
| "container_members (Str s) = []"
| "container_members (PIterable xs) = []"

inductive reaches :: "py_tree \<Rightarrow> py_tree \<Rightarrow> bool" where
  reaches_self: "reaches t t"
| reaches_member: "c \<in> set (container_members t) \<Longrightarrow> reaches c u \<Longrightarrow> reaches t u"

definition self_referential :: "py_tree \<Rightarrow> bool" where
  "self_referential t = (\<exists>c \<in> set (container_members t). reaches c t)"

text \<open>The list that is its own single element.\<close>

primcorec self_list :: "unit \<Rightarrow> py_tree" where
  "self_list u = PList (map self_list [u])"

text \<open>
  The trees built by nesting lists, tuples, named tuples and dictionaries around objects
  that are not iterable. The fields of a named tuple have distinct names, the items of a
  dictionary distinct keys.
\<close>

inductive nested_tree :: "py_tree \<Rightarrow> bool" where
  nested_leaf: "nested_tree (Obj x)"
| nested_list: "\<forall>c \<in> set xs. nested_tree c \<Longrightarrow> nested_tree (PList xs)"
| nested_tuple: "\<forall>c \<in> set xs. nested_tree c \<Longrightarrow> nested_tree (PTuple xs)"
| nested_namedtuple:
    "distinct (map fst flds) \<Longrightarrow> \<forall>c \<in> set (map snd flds). nested_tree c \<Longrightarrow>
     nested_tree (PNamedTuple cls flds)"
| nested_dict:
    "distinct (map fst items) \<Longrightarrow> \<forall>c \<in> set (map snd items). nested_tree c \<Longrightarrow>
     nested_tree (PDict items)"

text \<open>The children on which a call of \<open>flatten_tree\<close> calls itself.\<close>

definition visited :: "py_tree \<Rightarrow> py_tree list" where
  "visited t =
     (if isinstance_dict t then map snd (iteritems t)
      else if is_iterable t then elements t
      else [])"

text \<open>
  Two trees of the same container shape: the same containers, of the same classes, with the
  same field names and the same keys, around leaves in the same places.
\<close>

inductive same_shape :: "py_tree \<Rightarrow> py_tree \<Rightarrow> bool" where
  shape_leaf: "\<not> is_iterable y \<Longrightarrow> same_shape (Obj x) y"
| shape_list: "list_all2 same_shape xs ys \<Longrightarrow> same_shape (PList xs) (PList ys)"
| shape_tuple: "list_all2 same_shape xs ys \<Longrightarrow> same_shape (PTuple xs) (PTuple ys)"
| shape_namedtuple:
    "map fst flds = map fst flds1 \<Longrightarrow> list_all2 same_shape (map snd flds) (map snd flds1) \<Longrightarrow>
     same_shape (PNamedTuple cls flds) (PNamedTuple cls flds1)"
| shape_dict:
    "map fst items = map fst items1 \<Longrightarrow>
     list_all2 same_shape (map snd items) (map snd items1) \<Longrightarrow>
     same_shape (PDict items) (PDict items1)"

text \<open>
  What the two functions compute on a tree \<open>t\<close> from the recursion limit \<open>d0\<close> on: the
  leaves \<open>ls\<close> of \<open>t\<close>, their images \<open>ms\<close> under \<open>fn\<close>, and the transformed tree \<open>t'\<close>,
  of the shape of \<open>t\<close>, whose leaves are \<open>ms\<close>; and the same for the members \<open>xs\<close> of a
  container.
\<close>

definition walk_result ::
  "(py_tree \<Rightarrow> error + py_tree) \<Rightarrow> py_tree \<Rightarrow> nat \<Rightarrow> py_tree list \<Rightarrow> py_tree list \<Rightarrow> py_tree \<Rightarrow> bool" where
  "walk_result fn t d0 ls ms t' =
     (generate fn ls = Inr ms \<and> same_shape t t' \<and>
      (\<forall>d \<ge> d0.
         (\<forall>acc. flatten_tree d t acc = Inr (acc @ ls)) \<and>
         (\<forall>it. transform_tree d t fn it = Inr t') \<and>
         (\<forall>acc. flatten_tree d t' acc = Inr (acc @ ms))))"

definition walk_results ::
  "(py_tree \<Rightarrow> error + py_tree) \<Rightarrow> py_tree list \<Rightarrow> nat \<Rightarrow> py_tree list \<Rightarrow> py_tree list \<Rightarrow> py_tree list \<Rightarrow> bool" where
  "walk_results fn xs d0 ls ms ts =
     (generate fn ls = Inr ms \<and> list_all2 same_shape xs ts \<and>
      (\<forall>d \<ge> d0.
         (\<forall>acc. for_each (flatten_tree d) xs acc = Inr (acc @ ls)) \<and>
         generate (\<lambda>child. transform_tree d child fn TupleType) xs = Inr ts \<and>
         (\<forall>acc. for_each (flatten_tree d) ts acc = Inr (acc @ ms))))"

text \<open>
  For the examples: a tree with three levels of nesting, a function that moves a graph
  element into the graph \<open>g\<close>, and a function that wraps its argument into a list.
\<close>

definition example_tree :: py_tree where
  "example_tree =
     PList [PTuple [PDict [(Str ''k'', Obj (Node 1 ''a''))]],
            PNamedTuple ''Pair'' [(''x'', Obj (Tensor 1 ''b'' 0)), (''y'', PList [])]]"

fun into_graph :: "nat \<Rightarrow> py_tree \<Rightarrow> error + py_tree" where
  "into_graph g (Obj (Node g0 n)) = Inr (Obj (Node g n))"
| "into_graph g (Obj (Tensor g0 n i)) = Inr (Obj (Tensor g n i))"
| "into_graph g (Obj (Other nm)) = Inr (Obj (Other nm))"
| "into_graph g t = Inl TypeError"

definition wrap_in_list :: "py_tree \<Rightarrow> error + py_tree" where
  "wrap_in_list x = Inr (PList [x])"

section \<open>Properties\<close>

subsection \<open>Scope names and placeholder names\<close>

lemma rfind_ge: "- 1 \<le> rfind s c"
  by (induction s) (auto simp: Let_def)

lemma rfind_notin: "(rfind s c = - 1) = (c \<notin> set s)"
proof (induction s)
  case Nil
  then show ?case by simp
next
  case (Cons x xs)
  have "- 1 \<le> rfind xs c" by (rule rfind_ge)
  then have "rfind xs c + 1 \<noteq> - 1" by arith
  with Cons show ?case by (auto simp: Let_def)
qed

lemma rfind_append_notin: "c \<notin> set b \<Longrightarrow> rfind (a @ c # b) c = int (length a)"
  by (induction a) (auto simp: Let_def rfind_notin)

lemma nat_len_suc: "nat (int (length a) + 1) = Suc (length a)"
  by simp

lemma scope_basename_append: "CHR ''/'' \<notin> set b \<Longrightarrow> scope_basename (a @ CHR ''/'' # b) = b"
  by (simp add: scope_basename_def rfind_append_notin Let_def nat_len_suc del: of_nat_Suc)

lemma scope_dirname_append: "CHR ''/'' \<notin> set b \<Longrightarrow> scope_dirname (a @ CHR ''/'' # b) = a @ ''/''"
  by (simp add: scope_dirname_def rfind_append_notin Let_def nat_len_suc)

lemma scope_basename_noslash: "CHR ''/'' \<notin> set b \<Longrightarrow> scope_basename b = b"
  by (simp add: scope_basename_def rfind_notin Let_def)

lemma scope_dirname_noslash: "CHR ''/'' \<notin> set b \<Longrightarrow> scope_dirname b = []"
  by (simp add: scope_dirname_def rfind_notin Let_def)

lemma scope_finalize_cases: "scope_finalize s = [] \<or> (\<exists>a. scope_finalize s = a @ ''/'')"
proof (cases "s = []")
  case True
  then show ?thesis by (simp add: scope_finalize_def)
next
  case False
  then have "s = butlast s @ [last s]" by simp
  then show ?thesis
    by (cases "last s = CHR ''/''") (auto simp: scope_finalize_def)
qed

lemma scope_basename_finalized:
  "CHR ''/'' \<notin> set b \<Longrightarrow> scope_basename (scope_finalize s @ b) = b"
  using scope_finalize_cases [of s]
  by (auto simp: scope_basename_noslash scope_basename_append)

lemma scope_dirname_finalized:
  "CHR ''/'' \<notin> set b \<Longrightarrow> scope_dirname (scope_finalize s @ b) = scope_finalize s"
  using scope_finalize_cases [of s]
  by (auto simp: scope_dirname_noslash scope_dirname_append)

lemma scope_finalize_idem: "scope_finalize (scope_finalize s) = scope_finalize s"
  by (auto simp: scope_finalize_def)

lemma digit_char_noslash: "n < 10 \<Longrightarrow> digit_char n \<noteq> CHR ''/''"
proof -
  assume "n < 10"
  then have "digit_char n \<in> set ''0123456789''"
    unfolding digit_char_def by (intro nth_mem) simp
  then show ?thesis by auto
qed

lemma str_of_nat_noslash: "CHR ''/'' \<notin> set (str_of_nat n)"
proof (induction n rule: str_of_nat.induct)
  case (1 n)
  then show ?case
    using digit_char_noslash [of n] digit_char_noslash [of "n mod 10"]
    by (subst str_of_nat.simps) auto
qed

lemma rfind_drop: "c \<notin> set (drop (nat (rfind s c + 1)) s)"
proof (induction s)
  case Nil
  then show ?case by simp
next
  case (Cons x xs)
  have ge: "- 1 \<le> rfind xs c" by (rule rfind_ge)
  show ?case
  proof (cases "rfind xs c = - 1")
    case True
    then have "c \<notin> set xs" by (simp add: rfind_notin)
    with True show ?thesis by (simp add: Let_def)
  next
    case False
    with ge have "nat (rfind xs c + 1 + 1) = Suc (nat (rfind xs c + 1))" by arith
    with False Cons show ?thesis by (simp add: Let_def)
  qed
qed

lemma basename_noslash: "CHR ''/'' \<notin> set (scope_basename s)"
  using rfind_drop [of "CHR ''/''" s]
  by (auto simp: scope_basename_def Let_def rfind_notin)

text \<open>
  C6. \<^verbatim>\<open>placeholder_name\<close> is a function of its arguments alone (it reads no state), so two
  calls with the same tensor and scope return the same name. With a tensor \<open>t\<close> and a scope
  \<open>s\<close> it returns the finalized scope followed by \<^verbatim>\<open>geph__<basename>_<index>\<close>, or by the
  basename itself when that already starts with \<^verbatim>\<open>geph__\<close>. It is idempotent: the name
  derived for a tensor of the node that carries a generated name is that name again, under
  the same scope or under the scope of the node. Without a tensor it returns the finalized
  scope followed by \<^verbatim>\<open>geph\<close>.
\<close>

theorem placeholder_name_spec:
  "placeholder_name (Some (Tensor g n i)) (Some s) ''geph'' =
     Inr (scope_finalize s @
       (if startswith (scope_basename n) ''geph__'' then scope_basename n
        else ''geph__'' @ scope_basename n @ ''_'' @ str_of_nat i))
   \<and> (placeholder_name (Some (Tensor g n i)) (Some s) ''geph'' = Inr nm \<longrightarrow>
        placeholder_name (Some (Tensor g' nm j)) (Some s) ''geph'' = Inr nm \<and>
        placeholder_name (Some (Tensor g' nm j)) None ''geph'' = Inr nm)
   \<and> placeholder_name None (Some s) ''geph'' = Inr (scope_finalize s @ ''geph'')
   \<and> placeholder_name None None ''geph'' = Inr ''geph''"
proof -
  define ph where "ph = (if startswith (scope_basename n) ''geph__'' then scope_basename n
        else ''geph__'' @ scope_basename n @ ''_'' @ str_of_nat i)"
  have first: "placeholder_name (Some (Tensor g n i)) (Some s) ''geph'' = Inr (scope_finalize s @ ph)"
    by (simp add: placeholder_name_def Let_def ph_def)
  have noslash: "CHR ''/'' \<notin> set ph"
    by (simp add: ph_def basename_noslash str_of_nat_noslash)
  have starts: "startswith ph ''geph__''"
    by (simp add: ph_def startswith_def)
  have base: "scope_basename (scope_finalize s @ ph) = ph"
    using noslash by (rule scope_basename_finalized)
  have dir: "scope_dirname (scope_finalize s @ ph) = scope_finalize s"
    using noslash by (rule scope_dirname_finalized)
  have again: "placeholder_name (Some (Tensor g' (scope_finalize s @ ph) j)) (Some s) ''geph'' =
      Inr (scope_finalize s @ ph)"
    using starts by (simp add: placeholder_name_def Let_def base)
  have again_none: "placeholder_name (Some (Tensor g' (scope_finalize s @ ph) j)) None ''geph'' =
      Inr (scope_finalize s @ ph)"
    using starts by (simp add: placeholder_name_def Let_def base dir)
  have no_tensor: "placeholder_name None (Some s) ''geph'' = Inr (scope_finalize s @ ''geph'')"
    by (simp add: placeholder_name_def)
  have no_args: "placeholder_name None None ''geph'' = Inr ''geph''"
    by (simp add: placeholder_name_def)
  have idem: "placeholder_name (Some (Tensor g n i)) (Some s) ''geph'' = Inr nm \<longrightarrow>
        placeholder_name (Some (Tensor g' nm j)) (Some s) ''geph'' = Inr nm \<and>
        placeholder_name (Some (Tensor g' nm j)) None ''geph'' = Inr nm"
    using again again_none by (auto simp: first)
  from first have "placeholder_name (Some (Tensor g n i)) (Some s) ''geph'' =
     Inr (scope_finalize s @
       (if startswith (scope_basename n) ''geph__'' then scope_basename n
        else ''geph__'' @ scope_basename n @ ''_'' @ str_of_nat i))"
    unfolding ph_def .
  with idem no_tensor no_args show ?thesis by blast
qed

theorem placeholder_name_spec_witness:
  "placeholder_name (Some (Tensor 0 ''a/b'' 3)) (Some ''dst'') ''geph'' = Inr ''dst/geph__b_3''
   \<and> placeholder_name (Some (Tensor 1 ''dst/geph__b_3'' 7)) (Some ''dst'') ''geph'' = Inr ''dst/geph__b_3''
   \<and> placeholder_name (Some (Tensor 1 ''dst/geph__b_3'' 7)) None ''geph'' = Inr ''dst/geph__b_3''"
proof -
  have h: "placeholder_name (Some (Tensor 0 ''a/b'' 3)) (Some ''dst'') ''geph'' = Inr ''dst/geph__b_3''"
    by (simp add: placeholder_name_def scope_finalize_def scope_basename_def scope_dirname_def
        startswith_def str_of_nat.simps digit_char_def Let_def)
  from placeholder_name_spec [of 0 "''a/b''" 3 "''dst''" "''dst/geph__b_3''" 1 7] h
  show ?thesis by blast
qed

subsection \<open>Control outputs\<close>

lemma recorded_add_control_output:
  "recorded (add_control_output nm ci d) n =
     (if n = ci \<and> nm \<notin> set (recorded d n) then recorded d n @ [nm] else recorded d n)"
  by (auto simp: recorded_def add_control_output_def Let_def split: option.splits)

lemma recorded_fold_add:
  "recorded (fold (add_control_output nm) inputs d) n =
     (if n \<in> set inputs \<and> nm \<notin> set (recorded d n) then recorded d n @ [nm] else recorded d n)"
  by (induction inputs arbitrary: d) (auto simp: recorded_add_control_output)

lemma recorded_fold_nodes:
  "recorded (fold (\<lambda>node. fold (add_control_output (name node)) (control_inputs node)) ns d) n =
     concatenate_unique (recorded d n)
       (map name (filter (\<lambda>m. n \<in> set (control_inputs m)) ns))"
  by (induction ns arbitrary: d) (auto simp: recorded_fold_add)

lemma set_concatenate_unique: "set (concatenate_unique la lb) = set la \<union> set lb"
  by (induction la lb rule: concatenate_unique.induct) auto

lemma distinct_concatenate_unique: "distinct la \<Longrightarrow> distinct (concatenate_unique la lb)"
  by (induction la lb rule: concatenate_unique.induct) auto

lemma concatenate_unique_append:
  "distinct lb \<Longrightarrow> set la \<inter> set lb = {} \<Longrightarrow> concatenate_unique la lb = la @ lb"
  by (induction la lb rule: concatenate_unique.induct) auto

lemma get_build:
  "ControlOutputs_get g' (ControlOutputs_build g self) n =
     concatenate_unique [] (map name (filter (\<lambda>m. n \<in> set (control_inputs m)) (nodes g)))"
proof -
  have "ControlOutputs_get g' (ControlOutputs_build g self) n =
      recorded (fold (\<lambda>node. fold (add_control_output (name node)) (control_inputs node))
              (nodes g) Map.empty) n"
    by (simp add: ControlOutputs_get_def ControlOutputs_build_def recorded_def)
  also have "\<dots> = concatenate_unique (recorded Map.empty n)
       (map name (filter (\<lambda>m. n \<in> set (control_inputs m)) (nodes g)))"
    by (rule recorded_fold_nodes)
  finally show ?thesis by (simp add: recorded_def)
qed

text \<open>
  C5. After the index has been built from a graph \<open>g\<close>, \<open>get\<close> returns for a node \<open>n\<close> exactly
  the nodes of \<open>g\<close> whose control inputs contain \<open>n\<close>, without duplicates; the nodes of a
  graph being distinct, they come in the order of the scan of \<^verbatim>\<open>graph.nodes\<close>; the result is
  empty when no node of \<open>g\<close> lists \<open>n\<close> as a control input.
\<close>

theorem ControlOutputs_get_after_build:
  "set (ControlOutputs_get g (ControlOutputs_build g self) n) =
     {name m | m. m \<in> set (nodes g) \<and> n \<in> set (control_inputs m)}
   \<and> distinct (ControlOutputs_get g (ControlOutputs_build g self) n)
   \<and> (distinct (map name (nodes g)) \<longrightarrow>
        ControlOutputs_get g (ControlOutputs_build g self) n =
          map name (filter (\<lambda>m. n \<in> set (control_inputs m)) (nodes g)))
   \<and> ((\<forall>m \<in> set (nodes g). n \<notin> set (control_inputs m)) \<longrightarrow>
        ControlOutputs_get g (ControlOutputs_build g self) n = [])"
proof -
  let ?sel = "map name (filter (\<lambda>m. n \<in> set (control_inputs m)) (nodes g))"
  have eq: "ControlOutputs_get g (ControlOutputs_build g self) n = concatenate_unique [] ?sel"
    by (rule get_build)
  have s: "set (concatenate_unique [] ?sel) =
      {name m | m. m \<in> set (nodes g) \<and> n \<in> set (control_inputs m)}"
    by (auto simp: set_concatenate_unique)
  have d: "distinct (concatenate_unique [] ?sel)"
    by (simp add: distinct_concatenate_unique)
  have o: "distinct (map name (nodes g)) \<longrightarrow> concatenate_unique [] ?sel = ?sel"
  proof
    assume "distinct (map name (nodes g))"
    then have "distinct ?sel" by (rule distinct_map_filter)
    then show "concatenate_unique [] ?sel = ?sel"
      using concatenate_unique_append [of ?sel "[]"] by simp
  qed
  have e: "(\<forall>m \<in> set (nodes g). n \<notin> set (control_inputs m)) \<longrightarrow> concatenate_unique [] ?sel = []"
  proof
    assume "\<forall>m \<in> set (nodes g). n \<notin> set (control_inputs m)"
    then have "filter (\<lambda>m. n \<in> set (control_inputs m)) (nodes g) = []"
      by (simp add: filter_empty_conv)
    then show "concatenate_unique [] ?sel = []" by simp
  qed
  from s d o e show ?thesis unfolding eq by blast
qed

theorem ControlOutputs_get_after_build_witness:
  "distinct (map name (nodes example_after))
   \<and> ControlOutputs_get example_after (ControlOutputs_build example_after (ControlOutputs_init example_before)) ''d'' = [''c'']
   \<and> list_all (\<lambda>m. ''c'' \<notin> set (control_inputs m)) (nodes example_after)
   \<and> ControlOutputs_get example_after (ControlOutputs_build example_after (ControlOutputs_init example_before)) ''c'' = []"
proof -
  have h1: "distinct (map name (nodes example_after))"
    by (simp add: example_after_def)
  have h2: "\<forall>m \<in> set (nodes example_after). ''c'' \<notin> set (control_inputs m)"
    by (simp add: example_after_def)
  from ControlOutputs_get_after_build [of example_after "ControlOutputs_init example_before" "''d''"] h1
  have "ControlOutputs_get example_after (ControlOutputs_build example_after (ControlOutputs_init example_before)) ''d'' =
      map name (filter (\<lambda>m. ''d'' \<in> set (control_inputs m)) (nodes example_after))"
    by blast
  then have r1: "ControlOutputs_get example_after (ControlOutputs_build example_after (ControlOutputs_init example_before)) ''d'' = [''c'']"
    by (simp add: example_after_def)
  from ControlOutputs_get_after_build [of example_after "ControlOutputs_init example_before" "''c''"] h2
  have r2: "ControlOutputs_get example_after (ControlOutputs_build example_after (ControlOutputs_init example_before)) ''c'' = []"
    by blast
  from h2 have h2': "list_all (\<lambda>m. ''c'' \<notin> set (control_inputs m)) (nodes example_after)"
    by (simp add: list_all_iff)
  from h1 h2' r1 r2 show ?thesis by blast
qed

lemma member_get_build:
  "c \<in> set (nodes g) \<Longrightarrow> d \<in> set (control_inputs c) \<Longrightarrow>
   name c \<in> set (ControlOutputs_get g' (ControlOutputs_build g self) d)"
  by (auto simp: get_build set_concatenate_unique)

text \<open>
  The query \<open>get\<close> does not refresh the index: on the index built before the edge from
  \<open>d\<close> to \<open>c\<close> was added, it still returns nothing for \<open>d\<close> although the version of the
  graph has advanced, whereas the refreshed index returns \<open>c\<close>.
\<close>

theorem ControlOutputs_get_stale_counterexample:
  "build_version (ControlOutputs_init example_before) \<noteq> Some (version example_after)
   \<and> ControlOutputs_get example_after (ControlOutputs_init example_before) ''d'' \<noteq>
     ControlOutputs_get example_after
       (ControlOutputs_update example_after (ControlOutputs_init example_before)) ''d''"
  by (simp add: ControlOutputs_get_def ControlOutputs_init_def ControlOutputs_build_def
      ControlOutputs_update_def example_before_def example_after_def add_control_output_def)

text \<open>
  C2, as the code has it. \<open>get\<close> reads the dictionary as it was last built, whatever the
  state of the graph. The refresh is the separate method \<open>update\<close>: it compares the stored
  build version with the current version of the graph, rebuilds the whole index when they
  differ and leaves it unchanged when they agree. So a control edge into \<open>c\<close> from \<open>n\<close> that
  the graph holds is returned by \<open>get\<close> once \<open>update\<close> has run on the advanced version.
\<close>

theorem ControlOutputs_update_refreshes:
  "ControlOutputs_get g self n = recorded (control_outputs_dict self) n
   \<and> (build_version self \<noteq> Some (version g) \<longrightarrow>
        ControlOutputs_update g self = ControlOutputs_build g self)
   \<and> (build_version self = Some (version g) \<longrightarrow> ControlOutputs_update g self = self)
   \<and> (build_version self \<noteq> Some (version g) \<and> c \<in> set (nodes g) \<and> n \<in> set (control_inputs c) \<longrightarrow>
        name c \<in> set (ControlOutputs_get g (ControlOutputs_update g self) n))"
proof -
  have reads: "ControlOutputs_get g self n = recorded (control_outputs_dict self) n"
    by (simp add: ControlOutputs_get_def recorded_def)
  have differ: "build_version self \<noteq> Some (version g) \<longrightarrow>
        ControlOutputs_update g self = ControlOutputs_build g self"
    by (simp add: ControlOutputs_update_def)
  have same: "build_version self = Some (version g) \<longrightarrow> ControlOutputs_update g self = self"
    by (simp add: ControlOutputs_update_def)
  have edge: "build_version self \<noteq> Some (version g) \<and> c \<in> set (nodes g) \<and> n \<in> set (control_inputs c) \<longrightarrow>
        name c \<in> set (ControlOutputs_get g (ControlOutputs_update g self) n)"
    using member_get_build [of c g n g self] by (simp add: ControlOutputs_update_def)
  from reads differ same edge show ?thesis by blast
qed

theorem ControlOutputs_update_refreshes_witness:
  "build_version (ControlOutputs_init example_before) \<noteq> Some (version example_after)
   \<and> \<lparr>name = ''c'', control_inputs = [''d'']\<rparr> \<in> set (nodes example_after)
   \<and> ''d'' \<in> set (control_inputs \<lparr>name = ''c'', control_inputs = [''d'']\<rparr>)
   \<and> ''c'' \<in> set (ControlOutputs_get example_after
         (ControlOutputs_update example_after (ControlOutputs_init example_before)) ''d'')
   \<and> ControlOutputs_update example_before (ControlOutputs_init example_before) =
       ControlOutputs_init example_before"
proof -
  have h1: "build_version (ControlOutputs_init example_before) \<noteq> Some (version example_after)"
    by (simp add: ControlOutputs_init_def ControlOutputs_build_def example_before_def
        example_after_def)
  have h2: "\<lparr>name = ''c'', control_inputs = [''d'']\<rparr> \<in> set (nodes example_after)"
    by (simp add: example_after_def)
  have h3: "''d'' \<in> set (control_inputs \<lparr>name = ''c'', control_inputs = [''d'']\<rparr>)"
    by simp
  have h4: "build_version (ControlOutputs_init example_before) = Some (version example_before)"
    by (simp add: ControlOutputs_init_def ControlOutputs_build_def)
  from ControlOutputs_update_refreshes [of example_after "ControlOutputs_init example_before"
      "''d''" "\<lparr>name = ''c'', control_inputs = [''d'']\<rparr>"] h1 h2 h3
  have "name \<lparr>name = ''c'', control_inputs = [''d'']\<rparr> \<in> set (ControlOutputs_get example_after
         (ControlOutputs_update example_after (ControlOutputs_init example_before)) ''d'')"
    by blast
  then have r1: "''c'' \<in> set (ControlOutputs_get example_after
         (ControlOutputs_update example_after (ControlOutputs_init example_before)) ''d'')"
    by simp
  from ControlOutputs_update_refreshes [of example_before "ControlOutputs_init example_before"
      "''d''" "\<lparr>name = ''c'', control_inputs = [''d'']\<rparr>"] h4
  have r2: "ControlOutputs_update example_before (ControlOutputs_init example_before) =
       ControlOutputs_init example_before"
    by blast
  from h1 h2 h3 r1 r2 show ?thesis by blast
qed

subsection \<open>Unique graph of a collection\<close>

lemma isinstance_default:
  "isinstance x [NodeClass, TensorClass] = (isinstance_Node x \<or> isinstance_Tensor x)"
  by (cases x) (simp_all add: isinstance_def)

lemma getattr_graph_elem:
  "isinstance_Node x \<or> isinstance_Tensor x \<Longrightarrow> \<exists>g. getattr_graph x = Inr g"
  by (cases x) simp_all

lemma get_unique_graph_loop_Some:
  "\<forall>x \<in> set xs. (isinstance_Node x \<or> isinstance_Tensor x) \<and> isinstance x ct \<Longrightarrow>
   get_unique_graph_loop ct xs (Some g) =
     (if \<forall>x \<in> set xs. getattr_graph x = Inr g then Inr (Some g) else Inl ValueError)"
proof (induction xs)
  case Nil
  then show ?case by simp
next
  case (Cons x xs)
  then obtain xg where xg: "getattr_graph x = Inr xg"
    using getattr_graph_elem [of x] by auto
  from Cons.prems have inst: "isinstance x ct" by simp
  from Cons show ?case using xg inst by auto
qed

lemma get_unique_graph_loop_None:
  "\<forall>x \<in> set (x0 # xs). (isinstance_Node x \<or> isinstance_Tensor x) \<and> isinstance x ct \<Longrightarrow>
   getattr_graph x0 = Inr g \<Longrightarrow>
   get_unique_graph_loop ct (x0 # xs) None =
     (if \<forall>x \<in> set xs. getattr_graph x = Inr g then Inr (Some g) else Inl ValueError)"
  using get_unique_graph_loop_Some [of xs ct g] by simp

text \<open>
  C9. For an iterable of nodes and tensors that \<^verbatim>\<open>check_types\<close> accepts (as the default
  does): two elements of different graphs give a \<open>ValueError\<close>; the empty iterable gives a
  \<open>ValueError\<close>, or \<^verbatim>\<open>None\<close> when \<^verbatim>\<open>none_if_empty\<close> is set; otherwise the graph shared by
  all the elements is returned. The function has no other effect than its result: the
  source assigns to its local variables only.
\<close>

theorem get_unique_graph_spec:
  assumes elems: "\<forall>x \<in> set xs. isinstance_Node x \<or> isinstance_Tensor x"
    and accepted: "check_types = None \<or>
      (\<exists>cs. check_types = Some cs \<and> (\<forall>x \<in> set xs. isinstance x cs))"
  shows "((\<exists>x \<in> set xs. \<exists>y \<in> set xs. getattr_graph x \<noteq> getattr_graph y) \<longrightarrow>
            get_unique_graph (TopsIterable xs) check_types none_if_empty = Inl ValueError)
       \<and> (xs = [] \<longrightarrow> get_unique_graph (TopsIterable xs) check_types False = Inl ValueError
                    \<and> get_unique_graph (TopsIterable xs) check_types True = Inr None)
       \<and> (xs \<noteq> [] \<and> (\<forall>x \<in> set xs. getattr_graph x = Inr g) \<longrightarrow>
            get_unique_graph (TopsIterable xs) check_types none_if_empty = Inr (Some g))"
proof (cases xs)
  case Nil
  then show ?thesis by (simp add: get_unique_graph_def)
next
  case (Cons x0 xs')
  define ct where "ct = (case check_types of None \<Rightarrow> [NodeClass, TensorClass] | Some cs \<Rightarrow> cs)"
  from elems accepted have inst: "\<forall>x \<in> set xs. isinstance x ct"
    unfolding ct_def by (auto simp: isinstance_default)
  from elems Cons obtain g0 where g0: "getattr_graph x0 = Inr g0"
    using getattr_graph_elem [of x0] by auto
  from elems inst Cons
  have "\<forall>x \<in> set (x0 # xs'). (isinstance_Node x \<or> isinstance_Tensor x) \<and> isinstance x ct"
    by simp
  from get_unique_graph_loop_None [OF this g0]
  have loop: "get_unique_graph_loop ct xs None =
     (if \<forall>x \<in> set xs'. getattr_graph x = Inr g0 then Inr (Some g0) else Inl ValueError)"
    unfolding Cons .
  have unfold: "get_unique_graph (TopsIterable xs) check_types b =
      (case get_unique_graph_loop ct xs None of
         Inl e \<Rightarrow> Inl e
       | Inr g \<Rightarrow> if g = None \<and> \<not> b then Inl ValueError else Inr g)" for b
    by (simp add: get_unique_graph_def ct_def)
  have mismatch: "(\<exists>x \<in> set xs. \<exists>y \<in> set xs. getattr_graph x \<noteq> getattr_graph y) \<longrightarrow>
            get_unique_graph (TopsIterable xs) check_types none_if_empty = Inl ValueError"
  proof
    assume "\<exists>x \<in> set xs. \<exists>y \<in> set xs. getattr_graph x \<noteq> getattr_graph y"
    then obtain x y where xy: "x \<in> set xs" "y \<in> set xs" "getattr_graph x \<noteq> getattr_graph y"
      by blast
    have "\<not> (\<forall>x \<in> set xs'. getattr_graph x = Inr g0)"
    proof
      assume "\<forall>x \<in> set xs'. getattr_graph x = Inr g0"
      with g0 Cons have "\<forall>x \<in> set xs. getattr_graph x = Inr g0" by simp
      with xy show False by simp
    qed
    then show "get_unique_graph (TopsIterable xs) check_types none_if_empty = Inl ValueError"
      unfolding unfold loop by simp
  qed
  have same: "xs \<noteq> [] \<and> (\<forall>x \<in> set xs. getattr_graph x = Inr g) \<longrightarrow>
            get_unique_graph (TopsIterable xs) check_types none_if_empty = Inr (Some g)"
  proof
    assume a: "xs \<noteq> [] \<and> (\<forall>x \<in> set xs. getattr_graph x = Inr g)"
    with Cons g0 have eq: "g0 = g" by auto
    with a Cons have "\<forall>x \<in> set xs'. getattr_graph x = Inr g0" by auto
    then show "get_unique_graph (TopsIterable xs) check_types none_if_empty = Inr (Some g)"
      unfolding unfold loop using eq by simp
  qed
  from mismatch same Cons show ?thesis by simp
qed

theorem get_unique_graph_spec_witness:
  "list_all (\<lambda>x. isinstance_Node x \<or> isinstance_Tensor x) [Node 1 ''a'', Tensor 2 ''b'' 0]
   \<and> get_unique_graph (TopsIterable [Node 1 ''a'', Tensor 2 ''b'' 0]) None False = Inl ValueError
   \<and> get_unique_graph (TopsIterable [Node 1 ''a'', Tensor 1 ''b'' 0]) None False = Inr (Some 1)
   \<and> list_all (\<lambda>x. isinstance x [NodeClass]) [Node 1 ''a'', Node 1 ''c'']
   \<and> get_unique_graph (TopsIterable [Node 1 ''a'', Node 1 ''c'']) (Some [NodeClass]) False =
       Inr (Some 1)
   \<and> get_unique_graph (TopsIterable []) None False = Inl ValueError
   \<and> get_unique_graph (TopsIterable []) None True = Inr None"
proof -
  have h1: "\<forall>x \<in> set [Node 1 ''a'', Tensor 2 ''b'' 0]. isinstance_Node x \<or> isinstance_Tensor x"
    by simp
  have h2: "\<forall>x \<in> set [Node 1 ''a'', Tensor 1 ''b'' 0]. isinstance_Node x \<or> isinstance_Tensor x"
    by simp
  have h3: "\<forall>x \<in> set ([] :: py_obj list). isinstance_Node x \<or> isinstance_Tensor x"
    by simp
  have h4: "\<forall>x \<in> set [Node 1 ''a'', Node 1 ''c'']. isinstance_Node x \<or> isinstance_Tensor x"
    by simp
  have a0: "(None :: py_class list option) = None \<or>
      (\<exists>cs. None = Some cs \<and> (\<forall>x \<in> set xs. isinstance x cs))" for xs :: "py_obj list"
    by simp
  have a4: "Some [NodeClass] = None \<or>
      (\<exists>cs. Some [NodeClass] = Some cs \<and> (\<forall>x \<in> set [Node 1 ''a'', Node 1 ''c'']. isinstance x cs))"
    by (simp add: isinstance_def)
  have d: "\<exists>x \<in> set [Node 1 ''a'', Tensor 2 ''b'' 0]. \<exists>y \<in> set [Node 1 ''a'', Tensor 2 ''b'' 0].
      getattr_graph x \<noteq> getattr_graph y"
    by (rule bexI [of _ "Node 1 ''a''"], rule bexI [of _ "Tensor 2 ''b'' 0"]) simp_all
  have s2: "[Node 1 ''a'', Tensor 1 ''b'' 0] \<noteq> [] \<and>
      (\<forall>x \<in> set [Node 1 ''a'', Tensor 1 ''b'' 0]. getattr_graph x = Inr 1)"
    by simp
  have s4: "[Node 1 ''a'', Node 1 ''c''] \<noteq> [] \<and>
      (\<forall>x \<in> set [Node 1 ''a'', Node 1 ''c'']. getattr_graph x = Inr 1)"
    by simp
  from get_unique_graph_spec [OF h1 a0, of False 0] d
  have r1: "get_unique_graph (TopsIterable [Node 1 ''a'', Tensor 2 ''b'' 0]) None False = Inl ValueError"
    by blast
  from get_unique_graph_spec [OF h2 a0, of False 1] s2
  have r2: "get_unique_graph (TopsIterable [Node 1 ''a'', Tensor 1 ''b'' 0]) None False = Inr (Some 1)"
    by blast
  from get_unique_graph_spec [OF h4 a4, of False 1] s4
  have r4: "get_unique_graph (TopsIterable [Node 1 ''a'', Node 1 ''c'']) (Some [NodeClass]) False =
       Inr (Some 1)"
    by blast
  from get_unique_graph_spec [OF h3 a0, of False 0]
  have r3: "get_unique_graph (TopsIterable []) None False = Inl ValueError
      \<and> get_unique_graph (TopsIterable []) None True = Inr None"
    by blast
  have h1': "list_all (\<lambda>x. isinstance_Node x \<or> isinstance_Tensor x) [Node 1 ''a'', Tensor 2 ''b'' 0]"
    by simp
  have h4': "list_all (\<lambda>x. isinstance x [NodeClass]) [Node 1 ''a'', Node 1 ''c'']"
    by (simp add: isinstance_def)
  from h1' r1 r2 h4' r4 r3 show ?thesis by blast
qed

subsection \<open>Corresponding elements of another graph\<close>

text \<open>
  C3. With a non-empty source scope the function reads the attribute \<^verbatim>\<open>startswidth\<close> of a
  string, which no string has: the call raises \<open>AttributeError\<close> whether or not the name
  of the target starts with the scope, where the documentation of the function promises a
  \<open>ValueError\<close> for a name outside the scope and the corresponding element otherwise. The
  node \<open>a/b\<close> under the source scope \<open>a\<close> should resolve to the node \<open>b\<close> of the destination
  graph, and the node \<open>x/b\<close> should give a \<open>ValueError\<close>; with the empty source scope the
  lookup works.
\<close>

theorem find_corresponding_elem_src_scope:
  "find_corresponding_elem (Node 1 ''a/b'') example_dst '''' ''a'' = Inl AttributeError
   \<and> find_corresponding_elem (Node 1 ''x/b'') example_dst '''' ''a'' = Inl AttributeError
   \<and> find_corresponding_elem (Node 1 ''b'') example_dst '''' '''' = Inr (Node 2 ''b'')"
  by (simp add: find_corresponding_elem_def strip_src_scope_def str_getattr_def
      graph_getitem_def example_dst_def)


subsection \<open>Attribute values\<close>

text \<open>
  C1. \<^verbatim>\<open>attr_value_to_python_type\<close> is documented as the inverse of
  \<^verbatim>\<open>python_type_to_attr_value\<close>, and has no branch for the field \<^verbatim>\<open>list\<close>: a list of two
  integers, and the empty list, are encoded into the field \<^verbatim>\<open>list\<close>, and decoding the
  result raises \<open>ValueError\<close> instead of returning the list.
\<close>

theorem attr_value_roundtrip_list:
  "python_type_to_attr_value (PyList [PyInt 1, PyInt 2]) = Inr (AttrValue_list (ListValue\<lparr>lv_i := [1, 2]\<rparr>))
   \<and> attr_value_to_python_type (AttrValue_list (ListValue\<lparr>lv_i := [1, 2]\<rparr>)) = Inl ValueError
   \<and> python_type_to_attr_value (PyList []) = Inr (AttrValue_list ListValue)
   \<and> attr_value_to_python_type (AttrValue_list ListValue) = Inl ValueError"
  by (simp add: attr_value_of_sequence_def ListValue_def set_int64_def fits_int64_def)

lemma generate_set_int64:
  "generate (\<lambda>d. set_int64 (dim_size d)) ds =
     (if list_all (\<lambda>d. fits_int64 (dim_size d)) ds then Inr (map dim_size ds) else Inl ValueError)"
  by (induction ds) (simp_all add: set_int64_def)

lemma generate_as_dimension:
  "list_all (\<lambda>n. - 1 \<le> n) ns \<Longrightarrow> \<exists>ds. generate as_dimension ns = Inr ds"
  by (induction ns) (auto simp: as_dimension_def)

lemma as_proto_result:
  "(case conversion_error (PyTensorShape sh) of
      Some e \<Rightarrow> as_proto sh = Inl e
    | None \<Rightarrow> \<exists>p. as_proto sh = Inr p)"
proof (cases sh)
  case (TensorShape dims)
  then show ?thesis by (cases dims) (simp_all add: generate_set_int64)
qed

lemma make_tensor_proto_result:
  "(case conversion_error (PyNdarray a) of
      Some e \<Rightarrow> make_tensor_proto a = Inl e
    | None \<Rightarrow> \<exists>p. make_tensor_proto a = Inr p)"
  by (cases a) simp_all

lemma elem_result:
  "(case elem_error v of
      Some e \<Rightarrow> python_type_to_attr_list_elem lv v = Inl e
    | None \<Rightarrow> \<exists>lv1. python_type_to_attr_list_elem lv v = Inr lv1)"
proof (cases v)
  case (PyTensorShape sh)
  with as_proto_result [of sh] show ?thesis
    by (auto simp: elem_error_def has_list_field_def scalar_types_def split: option.splits)
next
  case (PyNdarray a)
  with make_tensor_proto_result [of a] show ?thesis
    by (auto simp: elem_error_def has_list_field_def scalar_types_def split: option.splits)
qed (simp_all add: elem_error_def has_list_field_def scalar_types_def as_bytes_def
       set_int64_def fits_int64_def int_of_bool_def)

lemma elems_result:
  "(case first_error elem_error vs of
      Some e \<Rightarrow> attr_list_elems lv vs = Inl e
    | None \<Rightarrow> \<exists>lv1. attr_list_elems lv vs = Inr lv1)"
proof (induction vs arbitrary: lv)
  case Nil
  show ?case by simp
next
  case (Cons v vs)
  show ?case
  proof (cases "elem_error v")
    case (Some e)
    with elem_result [where v = v and lv = lv] show ?thesis by simp
  next
    case None
    with elem_result [where v = v and lv = lv] obtain lv1 where
      lv1: "python_type_to_attr_list_elem lv v = Inr lv1" by auto
    with None Cons.IH [where lv = lv1] show ?thesis by (auto split: option.splits)
  qed
qed

lemma sequence_result:
  "(case first_error elem_error vs of
      Some e \<Rightarrow> attr_value_of_sequence vs = Inl e
    | None \<Rightarrow> \<exists>a. attr_value_of_sequence vs = Inr a)"
proof (cases vs)
  case Nil
  then show ?thesis by (simp add: attr_value_of_sequence_def)
next
  case (Cons v ws)
  with elems_result [where vs = vs and lv = ListValue] show ?thesis
    by (auto simp: attr_value_of_sequence_def split: option.splits)
qed

lemma value_result:
  "(case value_error v of
      Some e \<Rightarrow> python_type_to_attr_value v = Inl e
    | None \<Rightarrow> \<exists>a. python_type_to_attr_value v = Inr a)"
proof (cases v)
  case (PyList vs)
  with sequence_result [of vs] show ?thesis
    by (auto simp: value_error_def split: option.splits)
next
  case (PyTuple vs)
  with sequence_result [of vs] show ?thesis
    by (auto simp: value_error_def split: option.splits)
next
  case (PyTensorShape sh)
  with as_proto_result [of sh] show ?thesis
    by (auto simp: value_error_def has_attr_field_def scalar_types_def split: option.splits)
next
  case (PyNdarray a)
  with make_tensor_proto_result [of a] show ?thesis
    by (auto simp: value_error_def has_attr_field_def scalar_types_def split: option.splits)
qed (simp_all add: value_error_def has_attr_field_def scalar_types_def as_bytes_def
       set_int64_def fits_int64_def int_of_bool_def)

lemma decode_well_formed:
  assumes field: "WhichOneof a \<in> Some ` set recognized_fields" and wf: "well_formed a"
  shows "\<exists>r. attr_value_to_python_type a = Inr r"
proof (cases a)
  case (AttrValue_shape p)
  with wf generate_as_dimension [of "dim_sizes p"] show ?thesis
    by (auto simp: TensorShape_of_proto_def)
next
  case (AttrValue_tensor p)
  with wf show ?thesis by (cases p) simp_all
qed (use field wf in \<open>simp_all add: recognized_fields_def as_str_def DType_new_def\<close>)

text \<open>
  C8, as the code has it. \<^verbatim>\<open>python_type_to_attr_value\<close> raises \<open>ValueError\<close> for a value
  that is no sequence and whose type has no field in \<^verbatim>\<open>AttrValue\<close>, and
  \<^verbatim>\<open>attr_value_to_python_type\<close> raises \<open>ValueError\<close> for a message in which none of the
  seven recognized fields is populated. The other inputs do not all return: the conversion
  of the payload can raise. The encoder raises exactly the exception of \<open>value_error\<close>,
  and returns when there is none. The decoder returns on a recognized field with a
  well-formed payload; it raises \<open>UnicodeDecodeError\<close> on bytes that are not well-formed
  UTF-8, \<open>TypeError\<close> on the type number \<open>0\<close>, and the exception of \<^verbatim>\<open>tf.make_ndarray\<close> on a
  tensor message that it does not convert.
\<close>

theorem attr_value_codec_errors:
  "(python_type_to_attr_value v = Inl e) = (value_error v = Some e)
   \<and> (\<exists>r. python_type_to_attr_value v = Inr r) = (value_error v = None)
   \<and> (sequence_items v = None \<and> \<not> has_attr_field (type_of v) \<longrightarrow>
        python_type_to_attr_value v = Inl ValueError)
   \<and> (WhichOneof a \<notin> Some ` set recognized_fields \<longrightarrow>
        attr_value_to_python_type a = Inl ValueError)
   \<and> (WhichOneof a \<in> Some ` set recognized_fields \<and> well_formed a \<longrightarrow>
        (\<exists>r. attr_value_to_python_type a = Inr r))
   \<and> (\<not> utf8_valid b \<longrightarrow> attr_value_to_python_type (AttrValue_s b) = Inl UnicodeDecodeError)
   \<and> attr_value_to_python_type (AttrValue_type 0) = Inl TypeError
   \<and> attr_value_to_python_type (AttrValue_tensor (TensorProto_malformed e1)) = Inl e1"
proof -
  have enc: "(python_type_to_attr_value v = Inl e) = (value_error v = Some e)"
    using value_result [of v] by (cases "value_error v") auto
  have enc_ok: "(\<exists>r. python_type_to_attr_value v = Inr r) = (value_error v = None)"
    using value_result [of v] by (cases "value_error v") auto
  have unsupported: "sequence_items v = None \<and> \<not> has_attr_field (type_of v) \<longrightarrow>
        python_type_to_attr_value v = Inl ValueError"
    using value_result [of v] by (auto simp: value_error_def)
  have dec: "WhichOneof a \<notin> Some ` set recognized_fields \<longrightarrow>
        attr_value_to_python_type a = Inl ValueError"
    by (cases a) (simp_all add: recognized_fields_def)
  have dec_ok: "WhichOneof a \<in> Some ` set recognized_fields \<and> well_formed a \<longrightarrow>
        (\<exists>r. attr_value_to_python_type a = Inr r)"
    using decode_well_formed [of a] by blast
  have utf8: "\<not> utf8_valid b \<longrightarrow>
        attr_value_to_python_type (AttrValue_s b) = Inl UnicodeDecodeError"
    by (simp add: as_str_def)
  have invalid: "attr_value_to_python_type (AttrValue_type 0) = Inl TypeError"
    by (simp add: DType_new_def is_DataType_def)
  have malformed: "attr_value_to_python_type (AttrValue_tensor (TensorProto_malformed e1)) = Inl e1"
    by simp
  from enc enc_ok unsupported dec dec_ok utf8 invalid malformed show ?thesis
    by (intro conjI)
qed

theorem attr_value_codec_errors_witness:
  "python_type_to_attr_value PyOther = Inl ValueError
   \<and> python_type_to_attr_value (PyList [PyInt 1, PyOther]) = Inl ValueError
   \<and> python_type_to_attr_value (PyList [PyStr [0xD800], PyOther]) = Inl UnicodeEncodeError
   \<and> (\<exists>r. python_type_to_attr_value (PyTuple [PyStr [0x78], PyBool True]) = Inr r)
   \<and> attr_value_to_python_type AttrValue_unset = Inl ValueError
   \<and> (\<exists>r. attr_value_to_python_type (AttrValue_type 3) = Inr r)
   \<and> (\<exists>r. attr_value_to_python_type (AttrValue_shape (TensorShapeProto False [2, - 1])) = Inr r)
   \<and> attr_value_to_python_type (AttrValue_s [0xC3]) = Inl UnicodeDecodeError"
proof -
  note t1 = attr_value_codec_errors [of PyOther ValueError AttrValue_unset "[0xC3]"]
  note t2 = attr_value_codec_errors [of "PyList [PyInt 1, PyOther]" ValueError "AttrValue_type 3"]
  note t3 = attr_value_codec_errors [of "PyList [PyStr [0xD800], PyOther]" UnicodeEncodeError
      "AttrValue_shape (TensorShapeProto False [2, - 1])"]
  note t4 = attr_value_codec_errors [of "PyTuple [PyStr [0x78], PyBool True]"]
  have r1: "python_type_to_attr_value PyOther = Inl ValueError"
    using t1 by (simp add: has_attr_field_def scalar_types_def)
  have r2: "python_type_to_attr_value (PyList [PyInt 1, PyOther]) = Inl ValueError"
    using t2 by (simp add: value_error_def elem_error_def has_list_field_def scalar_types_def
        fits_int64_def)
  have r3: "python_type_to_attr_value (PyList [PyStr [0xD800], PyOther]) = Inl UnicodeEncodeError"
    using t3 by (simp add: value_error_def elem_error_def has_list_field_def scalar_types_def
        surrogate_def)
  have r4: "\<exists>r. python_type_to_attr_value (PyTuple [PyStr [0x78], PyBool True]) = Inr r"
    using t4 by (simp add: value_error_def elem_error_def has_list_field_def scalar_types_def
        surrogate_def)
  have r5: "attr_value_to_python_type AttrValue_unset = Inl ValueError"
    using t1 by (simp add: recognized_fields_def)
  have r6: "\<exists>r. attr_value_to_python_type (AttrValue_type 3) = Inr r"
    using t2 by (simp add: recognized_fields_def is_DataType_def)
  have r7: "\<exists>r. attr_value_to_python_type (AttrValue_shape (TensorShapeProto False [2, - 1])) = Inr r"
    using t3 by (simp add: recognized_fields_def)
  have r8: "attr_value_to_python_type (AttrValue_s [0xC3]) = Inl UnicodeDecodeError"
    using t1 by simp
  from r1 r2 r3 r4 r5 r6 r7 r8 show ?thesis by (intro conjI)
qed

text \<open>
  Three inputs with a field for their type, or with a recognized field populated, on which
  the codec raises: the integer \<open>2 ^ 63\<close>, the type number \<open>0\<close> and the single byte
  \<open>0xFF\<close>.
\<close>

theorem attr_value_codec_counterexample:
  "has_attr_field (type_of (PyInt (2 ^ 63)))
   \<and> sequence_items (PyInt (2 ^ 63)) = None
   \<and> python_type_to_attr_value (PyInt (2 ^ 63)) = Inl ValueError
   \<and> WhichOneof (AttrValue_type 0) = Some ''type''
   \<and> ''type'' \<in> set recognized_fields
   \<and> attr_value_to_python_type (AttrValue_type 0) = Inl TypeError
   \<and> WhichOneof (AttrValue_s [0xFF]) = Some ''s''
   \<and> ''s'' \<in> set recognized_fields
   \<and> attr_value_to_python_type (AttrValue_s [0xFF]) = Inl UnicodeDecodeError"
  by (simp add: has_attr_field_def scalar_types_def set_int64_def fits_int64_def
      recognized_fields_def DType_new_def is_DataType_def as_str_def)

subsection \<open>Trees: leaves, strings and self-referential containers\<close>

lemma self_list_unfold: "self_list u = PList [self_list u]"
  by (subst self_list.code) simp

lemma for_each_map: "for_each (\<lambda>x. f (g x)) xs s = for_each f (map g xs) s"
  by (induction xs arbitrary: s) (auto split: sum.splits)

lemma for_each_items: "for_each (\<lambda>(k, child). f child) items s = for_each f (map snd items) s"
  by (induction items arbitrary: s) (auto split: sum.splits)

lemma for_each_fails:
  "x \<in> set xs \<Longrightarrow> (\<And>s. \<exists>e. body x s = Inl e) \<Longrightarrow> \<exists>e. for_each body xs s = Inl e"
proof (induction xs arbitrary: s)
  case Nil
  then show ?case by simp
next
  case (Cons y ys)
  show ?case
  proof (cases "body y s")
    case (Inl e)
    then show ?thesis by simp
  next
    case (Inr s1)
    from Cons.prems(2) [of s] Inr have "x \<noteq> y" by auto
    with Cons.prems have "x \<in> set ys" by auto
    with Cons.IH Cons.prems(2) have "\<exists>e. for_each body ys s1 = Inl e" by blast
    with Inr show ?thesis by simp
  qed
qed

lemma for_each_error:
  "for_each body xs s = Inl e \<Longrightarrow> \<exists>x \<in> set xs. \<exists>s1. body x s1 = Inl e"
proof (induction xs arbitrary: s)
  case Nil
  then show ?case by simp
next
  case (Cons y ys)
  show ?case
  proof (cases "body y s")
    case (Inl e1)
    with Cons.prems have "body y s = Inl e" by simp
    then show ?thesis by auto
  next
    case (Inr s1)
    with Cons.prems have "for_each body ys s1 = Inl e" by simp
    from Cons.IH [OF this] show ?thesis by auto
  qed
qed

lemma is_iterable_simps:
  "is_iterable (Obj x) = False"
  "is_iterable (Str s) = True"
  "is_iterable (PList xs) = True"
  "is_iterable (PTuple xs) = True"
  "is_iterable (PNamedTuple cls flds) = True"
  "is_iterable (PDict items) = True"
  "is_iterable (PIterable xs) = True"
  by (simp_all add: is_iterable_def)

lemma not_iterable_Obj: "\<not> is_iterable t \<Longrightarrow> \<exists>x. t = Obj x"
  by (cases t) (simp_all add: is_iterable_simps)

lemma visited_simps:
  "visited (Obj x) = []"
  "visited (Str s) = map (\<lambda>c. Str [c]) s"
  "visited (PList xs) = xs"
  "visited (PTuple xs) = xs"
  "visited (PNamedTuple cls flds) = map snd flds"
  "visited (PDict items) = map snd items"
  "visited (PIterable xs) = xs"
  by (simp_all add: visited_def is_iterable_simps elements_def)

lemma flatten_tree_Suc:
  "flatten_tree (Suc d) t leaves =
     (if is_iterable t then for_each (flatten_tree d) (visited t) leaves
      else Inr (leaves @ [t]))"
  by (cases t) (simp_all add: is_iterable_simps visited_simps elements_def for_each_items)

declare flatten_tree.simps(2) [simp del]

lemma members_visited: "set (members t) \<subseteq> set (visited t)"
  by (cases t) (simp_all add: visited_simps)

lemma visited_iterable: "c \<in> set (visited t) \<Longrightarrow> is_iterable t"
  by (cases t) (simp_all add: visited_simps is_iterable_simps)

lemma flatten_tree_error: "flatten_tree d t leaves = Inl e \<Longrightarrow> e = RecursionError"
proof (induction d arbitrary: t leaves)
  case 0
  then show ?case by simp
next
  case (Suc d)
  show ?case
  proof (cases "is_iterable t")
    case True
    with Suc.prems have "for_each (flatten_tree d) (visited t) leaves = Inl e"
      by (simp add: flatten_tree_Suc)
    from for_each_error [OF this] obtain x s1 where "flatten_tree d x s1 = Inl e"
      by blast
    then show ?thesis by (rule Suc.IH)
  next
    case False
    with Suc.prems show ?thesis by (simp add: flatten_tree_Suc)
  qed
qed

lemma flatten_tree_diverges:
  assumes closed: "\<And>t. P t \<Longrightarrow> \<exists>c \<in> set (visited t). P c"
  shows "P t \<Longrightarrow> flatten_tree d t leaves = Inl RecursionError"
proof (induction d arbitrary: t leaves)
  case 0
  then show ?case by simp
next
  case (Suc d)
  from closed [OF Suc.prems] obtain c where c: "c \<in> set (visited t)" and pc: "P c"
    by blast
  from c have it: "is_iterable t" by (rule visited_iterable)
  have "\<And>s. \<exists>e. flatten_tree d c s = Inl e"
    using Suc.IH [OF pc] by blast
  with c have "\<exists>e. for_each (flatten_tree d) (visited t) leaves = Inl e"
    by (rule for_each_fails)
  then obtain e where e: "flatten_tree (Suc d) t leaves = Inl e"
    using it by (auto simp: flatten_tree_Suc)
  then have "e = RecursionError" by (rule flatten_tree_error)
  with e show ?case by simp
qed

lemma for_each_leaves:
  assumes body: "\<And>x s r. x \<in> set xs \<Longrightarrow> body x s = Inr r \<Longrightarrow> \<exists>ls. r = s @ ls \<and> (\<forall>l \<in> set ls. Q l)"
  shows "for_each body xs s = Inr r \<Longrightarrow> \<exists>ls. r = s @ ls \<and> (\<forall>l \<in> set ls. Q l)"
  using body
proof (induction xs arbitrary: s)
  case Nil
  then show ?case by simp
next
  case (Cons y ys)
  from Cons.prems(1) obtain s1 where s1: "body y s = Inr s1" and rest: "for_each body ys s1 = Inr r"
    by (auto split: sum.splits)
  from Cons.prems(2) [of y s s1] s1 obtain l1 where l1: "s1 = s @ l1" "\<forall>l \<in> set l1. Q l"
    by auto
  have "\<exists>ls. r = s1 @ ls \<and> (\<forall>l \<in> set ls. Q l)"
    using rest Cons.prems(2) by (intro Cons.IH) auto
  then obtain l2 where l2: "r = s1 @ l2" "\<forall>l \<in> set l2. Q l" by blast
  from l1 l2 have "r = s @ (l1 @ l2) \<and> (\<forall>l \<in> set (l1 @ l2). Q l)" by auto
  then show ?case by blast
qed

lemma flatten_tree_leaves:
  "flatten_tree d t leaves = Inr r \<Longrightarrow> \<exists>ls. r = leaves @ ls \<and> (\<forall>l \<in> set ls. \<not> is_iterable l)"
proof (induction d arbitrary: t leaves r)
  case 0
  then show ?case by simp
next
  case (Suc d)
  show ?case
  proof (cases "is_iterable t")
    case True
    with Suc.prems have "for_each (flatten_tree d) (visited t) leaves = Inr r"
      by (simp add: flatten_tree_Suc)
    then show ?thesis
      using Suc.IH by (rule for_each_leaves [rotated])
  next
    case False
    with Suc.prems show ?thesis by (auto simp: flatten_tree_Suc)
  qed
qed

lemma generate_fails:
  "x \<in> set xs \<Longrightarrow> \<exists>e. f x = Inl e \<Longrightarrow> \<exists>e. generate f xs = Inl e"
  by (induction xs) (auto split: sum.splits)

lemma generate_error: "generate f xs = Inl e \<Longrightarrow> \<exists>x \<in> set xs. f x = Inl e"
  by (induction xs) (auto split: sum.splits)

lemma generate_length: "generate f xs = Inr ys \<Longrightarrow> length ys = length xs"
  by (induction xs arbitrary: ys) (auto split: sum.splits)

lemma generate_append:
  "generate f xs = Inr a \<Longrightarrow> generate f ys = Inr b \<Longrightarrow> generate f (xs @ ys) = Inr (a @ b)"
  by (induction xs arbitrary: a) (auto split: sum.splits)

lemma generate_items:
  "generate g (map snd items) = Inr ts \<Longrightarrow>
   generate (\<lambda>(k, child). case g child of Inl e \<Rightarrow> Inl e | Inr c \<Rightarrow> Inr (k, c)) items =
     Inr (zip (map fst items) ts)"
  by (induction items arbitrary: ts) (auto split: sum.splits)

lemma generate_items_error:
  "generate (\<lambda>(k, child). case g child of Inl e \<Rightarrow> Inl e | Inr c \<Rightarrow> Inr (k, c)) items = Inl e \<Longrightarrow>
   \<exists>c \<in> set (map snd items). g c = Inl e"
  by (induction items) (auto split: sum.splits)

lemma generate_items_keys:
  "generate (\<lambda>(k, child). case g child of Inl e \<Rightarrow> Inl e | Inr c \<Rightarrow> Inr (k, c)) items = Inr items1 \<Longrightarrow>
   map fst items1 = map fst items"
  by (induction items arbitrary: items1) (auto split: sum.splits)

lemma transform_tree_Suc:
  "transform_tree (Suc d) (Obj x) fn it = fn (Obj x)"
  "transform_tree (Suc d) (Str s) fn it = Inr (Str [])"
  "transform_tree (Suc d) (PList xs) fn it =
     (case generate (\<lambda>child. transform_tree d child fn TupleType) xs of
        Inl e \<Rightarrow> Inl e | Inr ys \<Rightarrow> Inr (PList ys))"
  "transform_tree (Suc d) (PTuple xs) fn it =
     (case generate (\<lambda>child. transform_tree d child fn TupleType) xs of
        Inl e \<Rightarrow> Inl e | Inr ys \<Rightarrow> Inr (PTuple ys))"
  "transform_tree (Suc d) (PIterable xs) fn it =
     (case generate (\<lambda>child. transform_tree d child fn TupleType) xs of
        Inl e \<Rightarrow> Inl e | Inr ys \<Rightarrow> Inr (construct it ys))"
  "transform_tree (Suc d) (PNamedTuple cls flds) fn it =
     (case transform_tree d (asdict flds) fn TupleType of
        Inl e \<Rightarrow> Inl e | Inr kwargs \<Rightarrow> namedtuple_new cls (map fst flds) kwargs)"
  "transform_tree (Suc d) (PDict items) fn it =
     (case generate (\<lambda>(k, child).
              case transform_tree d child fn TupleType of
                Inl e \<Rightarrow> Inl e | Inr c \<Rightarrow> Inr (k, c)) items of
        Inl e \<Rightarrow> Inl e | Inr items1 \<Rightarrow> Inr (PDict items1))"
  by (simp_all add: is_iterable_simps)

declare transform_tree.simps(2) [simp del]

lemma transform_tree_leaf: "\<not> is_iterable t \<Longrightarrow> transform_tree (Suc d) t fn it = fn t"
  by (cases t) (simp_all add: is_iterable_simps transform_tree_Suc)

lemma transform_tree_diverges_aux:
  assumes closed: "\<And>t. P t \<Longrightarrow> \<exists>c \<in> set (members t). P c"
  shows "P t \<or> (\<exists>cls flds. t = asdict flds \<and> P (PNamedTuple cls flds)) \<Longrightarrow>
         \<exists>e. transform_tree d t fn it = Inl e"
proof (induction d arbitrary: t it)
  case 0
  then show ?case by simp
next
  case (Suc d)
  have child_fails: "\<exists>e. transform_tree d c fn TupleType = Inl e" if "P c" for c
    using Suc.IH [of c TupleType] that by blast
  from Suc.prems show ?case
  proof
    assume pt: "P t"
    from closed [OF pt] obtain c where c: "c \<in> set (members t)" and pc: "P c" by blast
    show ?thesis
    proof (cases t)
      case (Obj x)
      with c show ?thesis by simp
    next
      case (Str s)
      with c show ?thesis by simp
    next
      case (PList xs)
      with c child_fails [OF pc]
      have "\<exists>e. generate (\<lambda>child. transform_tree d child fn TupleType) xs = Inl e"
        by (intro generate_fails [of c]) auto
      with PList show ?thesis by (auto simp: transform_tree_Suc)
    next
      case (PTuple xs)
      with c child_fails [OF pc]
      have "\<exists>e. generate (\<lambda>child. transform_tree d child fn TupleType) xs = Inl e"
        by (intro generate_fails [of c]) auto
      with PTuple show ?thesis by (auto simp: transform_tree_Suc)
    next
      case (PIterable xs)
      with c child_fails [OF pc]
      have "\<exists>e. generate (\<lambda>child. transform_tree d child fn TupleType) xs = Inl e"
        by (intro generate_fails [of c]) auto
      with PIterable show ?thesis by (auto simp: transform_tree_Suc)
    next
      case (PNamedTuple cls flds)
      with pt have "\<exists>e. transform_tree d (asdict flds) fn TupleType = Inl e"
        by (intro Suc.IH) blast
      with PNamedTuple show ?thesis by (auto simp: transform_tree_Suc)
    next
      case (PDict items)
      with c obtain k where kc: "(k, c) \<in> set items" by auto
      from child_fails [OF pc] have "\<exists>e. (\<lambda>(k, child).
              case transform_tree d child fn TupleType of
                Inl e \<Rightarrow> Inl e | Inr c \<Rightarrow> Inr (k, c)) (k, c) = Inl e"
        by auto
      with kc have "\<exists>e. generate (\<lambda>(k, child).
              case transform_tree d child fn TupleType of
                Inl e \<Rightarrow> Inl e | Inr c \<Rightarrow> Inr (k, c)) items = Inl e"
        by (rule generate_fails)
      with PDict show ?thesis by (auto simp: transform_tree_Suc)
    qed
  next
    assume "\<exists>cls flds. t = asdict flds \<and> P (PNamedTuple cls flds)"
    then obtain cls flds where t: "t = asdict flds" and pn: "P (PNamedTuple cls flds)"
      by blast
    from closed [OF pn] obtain c where c: "c \<in> set (map snd flds)" and pc: "P c" by auto
    then obtain f where fc: "(f, c) \<in> set flds" by auto
    then have kc: "(Str f, c) \<in> set (map (\<lambda>(f, v). (Str f, v)) flds)" by force
    from child_fails [OF pc] have "\<exists>e. (\<lambda>(k, child).
              case transform_tree d child fn TupleType of
                Inl e \<Rightarrow> Inl e | Inr c \<Rightarrow> Inr (k, c)) (Str f, c) = Inl e"
      by auto
    with kc have "\<exists>e. generate (\<lambda>(k, child).
              case transform_tree d child fn TupleType of
                Inl e \<Rightarrow> Inl e | Inr c \<Rightarrow> Inr (k, c)) (map (\<lambda>(f, v). (Str f, v)) flds) = Inl e"
      by (rule generate_fails)
    with t show ?thesis by (auto simp: transform_tree_Suc asdict_def)
  qed
qed

lemma transform_tree_diverges:
  assumes closed: "\<And>t. P t \<Longrightarrow> \<exists>c \<in> set (members t). P c"
  shows "P t \<Longrightarrow> \<exists>e. transform_tree d t fn it = Inl e"
  using transform_tree_diverges_aux [of P t d fn it] closed by blast

lemma those_Some: "those (map Some ys) = Some ys"
  by (induction ys) simp_all

lemma map_of_keys:
  "distinct (map fst xs) \<Longrightarrow> map (map_of xs) (map fst xs) = map (\<lambda>x. Some (snd x)) xs"
proof (induction xs)
  case Nil
  then show ?case by simp
next
  case (Cons x xs)
  then have "fst x \<notin> fst ` set xs" by simp
  then have "\<forall>y \<in> set xs. fst y \<noteq> fst x" by (metis imageI)
  then have "map (\<lambda>y. map_of (x # xs) (fst y)) xs = map (\<lambda>y. map_of xs (fst y)) xs"
    by (intro map_cong) (auto simp: prod.case_eq_if)
  with Cons show ?case by (cases x) (simp add: comp_def)
qed

lemma those_total:
  "\<forall>x \<in> set xs. \<exists>y. g x = Some y \<Longrightarrow> \<exists>ys. those (map g xs) = Some ys"
  by (induction xs) auto

lemma namedtuple_new_total:
  assumes keys: "map fst items1 = map Str names"
  shows "\<exists>r. namedtuple_new cls names (PDict items1) = Inr r"
proof -
  have known: "list_all (\<lambda>k. k \<in> set (map Str names)) (map fst items1)"
    unfolding keys by (simp add: list_all_iff)
  have "\<forall>f \<in> set names. \<exists>y. map_of items1 (Str f) = Some y"
  proof
    fix f assume "f \<in> set names"
    then have "Str f \<in> fst ` set items1"
      using keys by (metis image_eqI list.set_map)
    then show "\<exists>y. map_of items1 (Str f) = Some y"
      by (metis map_of_eq_None_iff not_Some_eq)
  qed
  then obtain vs where "those (map (\<lambda>f. map_of items1 (Str f)) names) = Some vs"
    using those_total [of names "\<lambda>f. map_of items1 (Str f)"] by blast
  with known show ?thesis by (simp add: namedtuple_new_def)
qed

lemma namedtuple_new_zip:
  assumes dist: "distinct names" and len: "length ts = length names"
  shows "namedtuple_new cls names (PDict (zip (map Str names) ts)) =
           Inr (PNamedTuple cls (zip names ts))"
proof -
  let ?items = "zip (map Str names) ts"
  from len have keys: "map fst ?items = map Str names" by simp
  have known: "list_all (\<lambda>k. k \<in> set (map Str names)) (map fst ?items)"
    unfolding keys by (simp add: list_all_iff)
  have "distinct (map Str names)"
    using dist by (simp add: distinct_map inj_on_def)
  then have "distinct (map fst ?items)" using keys by simp
  then have "map (map_of ?items) (map fst ?items) = map (\<lambda>x. Some (snd x)) ?items"
    by (rule map_of_keys)
  then have "map (\<lambda>f. map_of ?items (Str f)) names = map Some ts"
    using len by (simp add: keys comp_def flip: map_map [of Some snd, unfolded comp_def])
  then have "those (map (\<lambda>f. map_of ?items (Str f)) names) = Some ts"
    by (simp add: those_Some)
  with known show ?thesis by (simp add: namedtuple_new_def)
qed

lemma transform_tree_error:
  assumes total: "\<And>x. \<exists>y. fn x = Inr y"
  shows "transform_tree d t fn it = Inl e \<Longrightarrow> e = RecursionError"
proof (induction d arbitrary: t it e)
  case 0
  then show ?case by simp
next
  case (Suc d)
  have gen: "e = RecursionError"
    if "generate (\<lambda>child. transform_tree d child fn TupleType) xs = Inl e" for xs
    using generate_error [OF that] Suc.IH by blast
  show ?case
  proof (cases t)
    case (Obj x)
    with Suc.prems total [of "Obj x"] show ?thesis by (simp add: transform_tree_Suc)
  next
    case (Str s)
    with Suc.prems show ?thesis by (simp add: transform_tree_Suc)
  next
    case (PList xs)
    with Suc.prems gen [of xs] show ?thesis
      by (auto simp: transform_tree_Suc split: sum.splits)
  next
    case (PTuple xs)
    with Suc.prems gen [of xs] show ?thesis
      by (auto simp: transform_tree_Suc split: sum.splits)
  next
    case (PIterable xs)
    with Suc.prems gen [of xs] show ?thesis
      by (auto simp: transform_tree_Suc split: sum.splits)
  next
    case (PDict items)
    with Suc.prems have "generate (\<lambda>(k, child).
              case transform_tree d child fn TupleType of
                Inl e \<Rightarrow> Inl e | Inr c \<Rightarrow> Inr (k, c)) items = Inl e"
      by (auto simp: transform_tree_Suc split: sum.splits)
    from generate_items_error [OF this] Suc.IH show ?thesis by blast
  next
    case (PNamedTuple cls flds)
    show ?thesis
    proof (cases "transform_tree d (asdict flds) fn TupleType")
      case (Inl e1)
      with PNamedTuple Suc.prems have "e1 = e" by (simp add: transform_tree_Suc)
      with Inl Suc.IH show ?thesis by blast
    next
      case (Inr kwargs)
      then obtain d1 where d: "d = Suc d1" by (cases d) auto
      from Inr obtain items1 where
        g: "generate (\<lambda>(k, child).
              case transform_tree d1 child fn TupleType of
                Inl e \<Rightarrow> Inl e | Inr c \<Rightarrow> Inr (k, c)) (map (\<lambda>(f, v). (Str f, v)) flds) = Inr items1"
        and kw: "kwargs = PDict items1"
        unfolding d asdict_def by (auto simp: transform_tree_Suc split: sum.splits)
      from generate_items_keys [OF g] have "map fst items1 = map Str (map fst flds)"
        by (simp add: comp_def prod.case_eq_if)
      from namedtuple_new_total [OF this] obtain r where
        "namedtuple_new cls (map fst flds) (PDict items1) = Inr r" by blast
      with PNamedTuple Suc.prems Inr kw show ?thesis by (simp add: transform_tree_Suc)
    qed
  qed
qed

lemma container_members_members: "set (container_members t) \<subseteq> set (members t)"
  by (cases t) simp_all

lemma self_referential_closed:
  assumes self: "self_referential t" and reach: "reaches x t"
  shows "\<exists>c \<in> set (container_members x). reaches c t"
  using reach
proof (cases rule: reaches.cases)
  case reaches_self
  with self show ?thesis by (simp add: self_referential_def)
next
  case (reaches_member c)
  then show ?thesis by blast
qed

text \<open>
  C7, as the code has it. Neither function has a guard against a container that contains
  itself: on a list, a tuple, a named tuple or a dictionary that is reached from itself
  through the members of such containers, a call never returns a result and raises no
  error of its own; whatever the recursion limit, \<open>flatten_tree\<close> ends with the
  \<open>RecursionError\<close> of the exhausted limit, and so does \<open>transform_tree\<close> unless \<open>fn\<close>
  raises first.
\<close>

theorem self_referential_recursion:
  assumes self: "self_referential t"
  shows "flatten_tree d t leaves = Inl RecursionError
       \<and> (\<exists>e. transform_tree d t fn it = Inl e)
       \<and> ((\<forall>x. \<exists>y. fn x = Inr y) \<longrightarrow> transform_tree d t fn it = Inl RecursionError)"
proof -
  have closed: "\<exists>c \<in> set (members x). reaches c t" if "reaches x t" for x
    using self_referential_closed [OF self that] container_members_members [of x] by blast
  then have closed_v: "\<exists>c \<in> set (visited x). reaches c t" if "reaches x t" for x
    using that members_visited [of x] by blast
  have start: "reaches t t" by (rule reaches_self)
  have f: "flatten_tree d t leaves = Inl RecursionError"
    using closed_v start by (rule flatten_tree_diverges [where P = "\<lambda>x. reaches x t"])
  have tr: "\<exists>e. transform_tree d t fn it = Inl e"
    using closed start by (rule transform_tree_diverges [where P = "\<lambda>x. reaches x t"])
  have "(\<forall>x. \<exists>y. fn x = Inr y) \<longrightarrow> transform_tree d t fn it = Inl RecursionError"
  proof
    assume total: "\<forall>x. \<exists>y. fn x = Inr y"
    from tr obtain e where e: "transform_tree d t fn it = Inl e" by blast
    then have "e = RecursionError"
      using total by (intro transform_tree_error [of fn d t it e]) auto
    with e show "transform_tree d t fn it = Inl RecursionError" by simp
  qed
  with f tr show ?thesis by blast
qed

lemma self_list_self_referential: "self_referential (self_list ())"
proof -
  have "self_list () \<in> set (container_members (self_list ()))"
    by (subst (2) self_list_unfold) simp
  then show ?thesis
    unfolding self_referential_def by (blast intro: reaches_self)
qed

theorem self_referential_recursion_witness:
  "self_referential (self_list ())
   \<and> flatten_tree 1000 (self_list ()) [] = Inl RecursionError
   \<and> transform_tree 1000 (self_list ()) Inr TupleType = Inl RecursionError"
proof -
  have total: "\<forall>x :: py_tree. \<exists>y. (Inr x :: error + py_tree) = Inr y" by simp
  from self_referential_recursion [OF self_list_self_referential, of 1000 "[]" Inr TupleType]
    self_list_self_referential total
  show ?thesis by blast
qed

text \<open>
  The list that is its own element, under the recursion limit 1000: neither function
  raises a \<open>ValueError\<close> or a \<open>TypeError\<close>.
\<close>

theorem self_referential_no_guard_counterexample:
  "self_referential (self_list ())
   \<and> flatten_tree 1000 (self_list ()) [] \<noteq> Inl ValueError
   \<and> flatten_tree 1000 (self_list ()) [] \<noteq> Inl TypeError
   \<and> transform_tree 1000 (self_list ()) Inr TupleType \<noteq> Inl ValueError
   \<and> transform_tree 1000 (self_list ()) Inr TupleType \<noteq> Inl TypeError"
proof -
  have closed: "\<exists>c \<in> set (members x). reaches c (self_list ())"
    if "reaches x (self_list ())" for x
    using self_referential_closed [OF self_list_self_referential that]
      container_members_members [of x] by blast
  then have closed_v: "\<exists>c \<in> set (visited x). reaches c (self_list ())"
    if "reaches x (self_list ())" for x
    using that members_visited [of x] by blast
  have start: "reaches (self_list ()) (self_list ())" by (rule reaches_self)
  have f: "flatten_tree 1000 (self_list ()) [] = Inl RecursionError"
    using closed_v start
    by (rule flatten_tree_diverges [where P = "\<lambda>x. reaches x (self_list ())"])
  have "\<exists>e. transform_tree 1000 (self_list ()) Inr TupleType = Inl e"
    using closed start
    by (rule transform_tree_diverges [where P = "\<lambda>x. reaches x (self_list ())"])
  then obtain e where e: "transform_tree 1000 (self_list ()) Inr TupleType = Inl e" by blast
  then have "e = RecursionError"
    by (intro transform_tree_error [of Inr 1000 "self_list ()" TupleType e]) auto
  with e f self_list_self_referential show ?thesis by simp
qed

lemma contains_string_closed:
  assumes "\<exists>s. s \<noteq> [] \<and> contains x (Str s)"
  shows "\<exists>c \<in> set (visited x). \<exists>s. s \<noteq> [] \<and> contains c (Str s)"
proof -
  from assms obtain s where s: "s \<noteq> []" and reach: "contains x (Str s)" by blast
  from reach show ?thesis
  proof (cases rule: contains.cases)
    case contains_self
    from s obtain a as where "s = a # as" by (cases s) auto
    with contains_self have "x = Str (a # as)" by simp
    then have "Str [a] \<in> set (visited x)" by (simp add: visited_simps)
    moreover have "[a] \<noteq> [] \<and> contains (Str [a]) (Str [a])"
      by (simp add: contains.contains_self)
    ultimately show ?thesis by blast
  next
    case (contains_member c)
    with members_visited [of x] s show ?thesis by blast
  qed
qed

text \<open>
  C10, as the code has it. A value is a leaf exactly when \<open>is_iterable\<close> is false for it:
  such a value is returned as the only leaf by \<open>flatten_tree\<close> and is given to \<open>fn\<close> by
  \<open>transform_tree\<close>, and every leaf that \<open>flatten_tree\<close> returns is not iterable, so no
  string is among the leaves. A string is iterable. On a tree that contains a non-empty
  string \<open>flatten_tree\<close> returns no result, whatever the recursion limit. \<open>transform_tree\<close>
  does not descend into a string: it returns the empty string in its place, without
  calling \<open>fn\<close>.
\<close>

theorem leaves_and_strings:
  "(\<not> is_iterable t \<longrightarrow>
      flatten_tree (Suc d) t leaves = Inr (leaves @ [t]) \<and>
      transform_tree (Suc d) t fn it = fn t)
   \<and> (flatten_tree d t leaves = Inr r \<longrightarrow>
        (\<exists>ls. r = leaves @ ls \<and> (\<forall>l \<in> set ls. \<not> is_iterable l)))
   \<and> is_iterable (Str s)
   \<and> (s \<noteq> [] \<and> contains t (Str s) \<longrightarrow> flatten_tree d t leaves = Inl RecursionError)
   \<and> transform_tree (Suc d) (Str s) fn it = Inr (Str [])"
proof -
  have leaf: "\<not> is_iterable t \<longrightarrow>
      flatten_tree (Suc d) t leaves = Inr (leaves @ [t]) \<and>
      transform_tree (Suc d) t fn it = fn t"
    by (simp add: flatten_tree_Suc transform_tree_leaf)
  have only: "flatten_tree d t leaves = Inr r \<longrightarrow>
        (\<exists>ls. r = leaves @ ls \<and> (\<forall>l \<in> set ls. \<not> is_iterable l))"
    using flatten_tree_leaves [of d t leaves r] by blast
  have str: "is_iterable (Str s)" by (simp add: is_iterable_simps)
  have loop: "s \<noteq> [] \<and> contains t (Str s) \<longrightarrow> flatten_tree d t leaves = Inl RecursionError"
  proof
    assume "s \<noteq> [] \<and> contains t (Str s)"
    then have start: "\<exists>s. s \<noteq> [] \<and> contains t (Str s)" by blast
    show "flatten_tree d t leaves = Inl RecursionError"
      using contains_string_closed start
      by (rule flatten_tree_diverges [where P = "\<lambda>x. \<exists>s. s \<noteq> [] \<and> contains x (Str s)"])
  qed
  have tr: "transform_tree (Suc d) (Str s) fn it = Inr (Str [])"
    by (simp add: transform_tree_Suc)
  from leaf only str loop tr show ?thesis by blast
qed

theorem leaves_and_strings_witness:
  "\<not> is_iterable (Obj (Node 1 ''a''))
   \<and> flatten_tree 1 (Obj (Node 1 ''a'')) [] = Inr [Obj (Node 1 ''a'')]
   \<and> transform_tree 1 (Obj (Node 1 ''a'')) Inr TupleType = Inr (Obj (Node 1 ''a''))
   \<and> contains (PList [Obj (Node 1 ''a''), Str ''ab'']) (Str ''ab'')
   \<and> flatten_tree 1000 (PList [Obj (Node 1 ''a''), Str ''ab'']) [] = Inl RecursionError
   \<and> transform_tree 1 (Str ''ab'') Inr TupleType = Inr (Str [])"
proof -
  have h1: "\<not> is_iterable (Obj (Node 1 ''a''))" by (simp add: is_iterable_simps)
  have h2: "contains (PList [Obj (Node 1 ''a''), Str ''ab'']) (Str ''ab'')"
    by (rule contains_member [of "Str ''ab''"]) (simp_all add: contains_self)
  have h3: "''ab'' \<noteq> []" by simp
  from leaves_and_strings [of "Obj (Node 1 ''a'')" 0 "[]" Inr TupleType "[]" "''ab''"] h1
  have r1: "flatten_tree 1 (Obj (Node 1 ''a'')) [] = Inr [Obj (Node 1 ''a'')]
      \<and> transform_tree 1 (Obj (Node 1 ''a'')) Inr TupleType = Inr (Obj (Node 1 ''a''))
      \<and> transform_tree 1 (Str ''ab'') Inr TupleType = Inr (Str [])"
    by simp
  from leaves_and_strings [of "PList [Obj (Node 1 ''a''), Str ''ab'']" 1000 "[]" Inr TupleType
      "[]" "''ab''"] h2 h3
  have r2: "flatten_tree 1000 (PList [Obj (Node 1 ''a''), Str ''ab'']) [] = Inl RecursionError"
    by blast
  from h1 h2 r1 r2 show ?thesis by blast
qed

text \<open>
  \<open>transform_tree\<close> returns on a string and on a list that contains a non-empty string.
\<close>

theorem transform_tree_string_counterexample:
  "contains (PList [Str ''ab'']) (Str ''ab'')
   \<and> transform_tree 2 (PList [Str ''ab'']) Inr TupleType = Inr (PList [Str []])
   \<and> transform_tree 1 (Str ''ab'') Inr TupleType = Inr (Str [])"
proof -
  have "contains (PList [Str ''ab'']) (Str ''ab'')"
    by (rule contains_member [of "Str ''ab''"]) (simp_all add: contains_self)
  moreover have "transform_tree (Suc (Suc 0)) (PList [Str ''ab'']) Inr TupleType = Inr (PList [Str []])"
    by (simp add: transform_tree_Suc)
  moreover have "transform_tree (Suc 0) (Str ''ab'') Inr TupleType = Inr (Str [])"
    by (simp add: transform_tree_Suc)
  ultimately show ?thesis by (simp add: numeral_2_eq_2)
qed

subsection \<open>Trees: flattening a transformed tree\<close>

lemma walk_results_Nil: "walk_results fn [] 0 [] [] []"
  by (simp add: walk_results_def)

lemma walk_results_Cons:
  assumes c: "walk_result fn c d1 l1 m1 t1" and xs: "walk_results fn xs d2 l2 m2 ts2"
  shows "walk_results fn (c # xs) (max d1 d2) (l1 @ l2) (m1 @ m2) (t1 # ts2)"
proof -
  from c xs have gen: "generate fn (l1 @ l2) = Inr (m1 @ m2)"
    by (simp add: walk_result_def walk_results_def generate_append)
  have step: "(\<forall>acc. for_each (flatten_tree d) (c # xs) acc = Inr (acc @ l1 @ l2)) \<and>
         generate (\<lambda>child. transform_tree d child fn TupleType) (c # xs) = Inr (t1 # ts2) \<and>
         (\<forall>acc. for_each (flatten_tree d) (t1 # ts2) acc = Inr (acc @ m1 @ m2))"
    if "d \<ge> max d1 d2" for d
  proof -
    from that have d1: "d \<ge> d1" and d2: "d \<ge> d2" by simp_all
    from c d1 have c1: "\<And>acc. flatten_tree d c acc = Inr (acc @ l1)"
      and c2: "transform_tree d c fn TupleType = Inr t1"
      and c3: "\<And>acc. flatten_tree d t1 acc = Inr (acc @ m1)"
      by (simp_all add: walk_result_def)
    from xs d2 have x1: "\<And>acc. for_each (flatten_tree d) xs acc = Inr (acc @ l2)"
      and x2: "generate (\<lambda>child. transform_tree d child fn TupleType) xs = Inr ts2"
      and x3: "\<And>acc. for_each (flatten_tree d) ts2 acc = Inr (acc @ m2)"
      by (simp_all add: walk_results_def)
    show ?thesis by (simp add: c1 c2 c3 x1 x2 x3)
  qed
  from c xs have "list_all2 same_shape (c # xs) (t1 # ts2)"
    by (simp add: walk_result_def walk_results_def)
  with gen step show ?thesis by (simp add: walk_results_def)
qed

lemma walk_results_exist:
  "\<forall>c \<in> set xs. \<exists>d0 ls ms t'. walk_result fn c d0 ls ms t' \<Longrightarrow>
   \<exists>d0 ls ms ts. walk_results fn xs d0 ls ms ts"
proof (induction xs)
  case Nil
  show ?case using walk_results_Nil by blast
next
  case (Cons c xs)
  then obtain d1 l1 m1 t1 where c: "walk_result fn c d1 l1 m1 t1" by auto
  from Cons obtain d2 l2 m2 ts2 where xs: "walk_results fn xs d2 l2 m2 ts2" by auto
  from walk_results_Cons [OF c xs] show ?case by blast
qed

lemma walk_results_length: "walk_results fn xs d0 ls ms ts \<Longrightarrow> length ts = length xs"
  unfolding walk_results_def using generate_length by blast

lemma walk_result_leaf:
  assumes y: "fn (Obj x) = Inr y" and leaf: "\<not> is_iterable y"
  shows "walk_result fn (Obj x) 1 [Obj x] [y] y"
proof -
  have "(\<forall>acc. flatten_tree d (Obj x) acc = Inr (acc @ [Obj x])) \<and>
         (\<forall>it. transform_tree d (Obj x) fn it = Inr y) \<and>
         (\<forall>acc. flatten_tree d y acc = Inr (acc @ [y]))" if "d \<ge> 1" for d
  proof -
    from that obtain d' where d: "d = Suc d'" by (cases d) auto
    show ?thesis unfolding d using y leaf
      by (simp add: flatten_tree_Suc transform_tree_Suc is_iterable_simps)
  qed
  with y leaf show ?thesis by (simp add: walk_result_def shape_leaf)
qed

lemma walk_result_container:
  assumes xs: "walk_results fn xs d0 ls ms ts"
  shows "walk_result fn (PList xs) (Suc d0) ls ms (PList ts)"
    and "walk_result fn (PTuple xs) (Suc d0) ls ms (PTuple ts)"
proof -
  from xs have gen: "generate fn ls = Inr ms" by (simp add: walk_results_def)
  from xs have sh: "list_all2 same_shape xs ts" by (simp add: walk_results_def)
  have step: "(\<forall>acc. for_each (flatten_tree d') xs acc = Inr (acc @ ls)) \<and>
         generate (\<lambda>child. transform_tree d' child fn TupleType) xs = Inr ts \<and>
         (\<forall>acc. for_each (flatten_tree d') ts acc = Inr (acc @ ms))" if "Suc d' \<ge> Suc d0" for d'
    using xs that by (simp add: walk_results_def)
  have "(\<forall>acc. flatten_tree d (PList xs) acc = Inr (acc @ ls)) \<and>
         (\<forall>it. transform_tree d (PList xs) fn it = Inr (PList ts)) \<and>
         (\<forall>acc. flatten_tree d (PList ts) acc = Inr (acc @ ms))" if "d \<ge> Suc d0" for d
  proof -
    from that obtain d' where d: "d = Suc d'" by (cases d) auto
    from step [of d'] that d show ?thesis
      by (simp add: flatten_tree_Suc transform_tree_Suc is_iterable_simps visited_simps)
  qed
  with gen sh show "walk_result fn (PList xs) (Suc d0) ls ms (PList ts)"
    by (simp add: walk_result_def shape_list)
  have "(\<forall>acc. flatten_tree d (PTuple xs) acc = Inr (acc @ ls)) \<and>
         (\<forall>it. transform_tree d (PTuple xs) fn it = Inr (PTuple ts)) \<and>
         (\<forall>acc. flatten_tree d (PTuple ts) acc = Inr (acc @ ms))" if "d \<ge> Suc d0" for d
  proof -
    from that obtain d' where d: "d = Suc d'" by (cases d) auto
    from step [of d'] that d show ?thesis
      by (simp add: flatten_tree_Suc transform_tree_Suc is_iterable_simps visited_simps)
  qed
  with gen sh show "walk_result fn (PTuple xs) (Suc d0) ls ms (PTuple ts)"
    by (simp add: walk_result_def shape_tuple)
qed

lemma walk_result_dict:
  assumes xs: "walk_results fn (map snd items) d0 ls ms ts"
  shows "walk_result fn (PDict items) (Suc d0) ls ms (PDict (zip (map fst items) ts))"
proof -
  from xs have gen: "generate fn ls = Inr ms" by (simp add: walk_results_def)
  from xs have len: "length ts = length items"
    using walk_results_length by fastforce
  from xs len have sh: "same_shape (PDict items) (PDict (zip (map fst items) ts))"
    by (intro shape_dict) (simp_all add: walk_results_def)
  have "(\<forall>acc. flatten_tree d (PDict items) acc = Inr (acc @ ls)) \<and>
         (\<forall>it. transform_tree d (PDict items) fn it = Inr (PDict (zip (map fst items) ts))) \<and>
         (\<forall>acc. flatten_tree d (PDict (zip (map fst items) ts)) acc = Inr (acc @ ms))"
    if "d \<ge> Suc d0" for d
  proof -
    from that obtain d' where d: "d = Suc d'" and d': "d' \<ge> d0" by (cases d) auto
    from xs d' have x1: "\<And>acc. for_each (flatten_tree d') (map snd items) acc = Inr (acc @ ls)"
      and x2: "generate (\<lambda>child. transform_tree d' child fn TupleType) (map snd items) = Inr ts"
      and x3: "\<And>acc. for_each (flatten_tree d') ts acc = Inr (acc @ ms)"
      by (simp_all add: walk_results_def)
    from generate_items [OF x2] len show ?thesis unfolding d
      by (simp add: flatten_tree_Suc transform_tree_Suc is_iterable_simps visited_simps x1 x3)
  qed
  with gen sh show ?thesis by (simp add: walk_result_def)
qed

lemma walk_results_mono: "walk_results fn xs d0 ls ms ts \<Longrightarrow> d0 \<le> d1 \<Longrightarrow> walk_results fn xs d1 ls ms ts"
  by (simp add: walk_results_def)

lemma walk_result_namedtuple:
  assumes xs: "walk_results fn (map snd flds) d0 ls ms ts" and dist: "distinct (map fst flds)"
  shows "walk_result fn (PNamedTuple cls flds) (Suc (Suc d0)) ls ms
           (PNamedTuple cls (zip (map fst flds) ts))"
proof -
  let ?items = "map (\<lambda>(f, v). (Str f, v)) flds"
  have snd_items: "map snd ?items = map snd flds"
    by (simp add: comp_def prod.case_eq_if)
  have fst_items: "map fst ?items = map Str (map fst flds)"
    by (simp add: comp_def prod.case_eq_if)
  from xs have gen: "generate fn ls = Inr ms" by (simp add: walk_results_def)
  from xs have len: "length ts = length flds"
    using walk_results_length by fastforce
  from xs len have sh: "same_shape (PNamedTuple cls flds) (PNamedTuple cls (zip (map fst flds) ts))"
    by (intro shape_namedtuple) (simp_all add: walk_results_def)
  from xs have "walk_results fn (map snd ?items) d0 ls ms ts" unfolding snd_items .
  then have dict: "walk_result fn (asdict flds) (Suc d0) ls ms (PDict (zip (map fst ?items) ts))"
    unfolding asdict_def by (rule walk_result_dict)
  have new: "namedtuple_new cls (map fst flds) (PDict (zip (map fst ?items) ts)) =
      Inr (PNamedTuple cls (zip (map fst flds) ts))"
    unfolding fst_items using dist len by (intro namedtuple_new_zip) simp_all
  have "(\<forall>acc. flatten_tree d (PNamedTuple cls flds) acc = Inr (acc @ ls)) \<and>
         (\<forall>it. transform_tree d (PNamedTuple cls flds) fn it =
            Inr (PNamedTuple cls (zip (map fst flds) ts))) \<and>
         (\<forall>acc. flatten_tree d (PNamedTuple cls (zip (map fst flds) ts)) acc = Inr (acc @ ms))"
    if "d \<ge> Suc (Suc d0)" for d
  proof -
    from that obtain d' where d: "d = Suc d'" and d': "d' \<ge> Suc d0" by (cases d) auto
    then have d'0: "d' \<ge> d0" by simp
    from xs d'0 have x1: "\<And>acc. for_each (flatten_tree d') (map snd flds) acc = Inr (acc @ ls)"
      and x3: "\<And>acc. for_each (flatten_tree d') ts acc = Inr (acc @ ms)"
      by (simp_all add: walk_results_def)
    from dict d' have tr: "transform_tree d' (asdict flds) fn TupleType =
        Inr (PDict (zip (map fst ?items) ts))"
      by (simp add: walk_result_def)
    have a: "\<And>acc. flatten_tree (Suc d') (PNamedTuple cls flds) acc = Inr (acc @ ls)"
      by (simp add: flatten_tree_Suc is_iterable_simps visited_simps x1)
    have b: "\<And>it. transform_tree (Suc d') (PNamedTuple cls flds) fn it =
            Inr (PNamedTuple cls (zip (map fst flds) ts))"
      by (simp only: transform_tree_Suc tr new sum.case)
    have c: "\<And>acc. flatten_tree (Suc d') (PNamedTuple cls (zip (map fst flds) ts)) acc =
            Inr (acc @ ms)"
      using len by (simp add: flatten_tree_Suc is_iterable_simps visited_simps x3)
    from a b c show ?thesis unfolding d by blast
  qed
  with gen sh show ?thesis by (simp add: walk_result_def)
qed

lemma leaf_hyp_member:
  "c \<in> set (members t) \<Longrightarrow> \<forall>x. contains t (Obj x) \<longrightarrow> Q x \<Longrightarrow>
   \<forall>x. contains c (Obj x) \<longrightarrow> Q x"
  by (blast intro: contains_member)

lemma walk_members:
  assumes IH: "\<forall>c \<in> set (members t). nested_tree c \<and>
      ((\<forall>x. contains c (Obj x) \<longrightarrow> Q x) \<longrightarrow> (\<exists>d0 ls ms t'. walk_result fn c d0 ls ms t'))"
    and leaves: "\<forall>x. contains t (Obj x) \<longrightarrow> Q x"
  shows "\<exists>d0 ls ms ts. walk_results fn (members t) d0 ls ms ts"
proof -
  have "\<forall>c \<in> set (members t). \<exists>d0 ls ms t'. walk_result fn c d0 ls ms t'"
  proof
    fix c assume c: "c \<in> set (members t)"
    from leaf_hyp_member [OF c leaves] have "\<forall>x. contains c (Obj x) \<longrightarrow> Q x" .
    moreover from IH c have "(\<forall>x. contains c (Obj x) \<longrightarrow> Q x) \<longrightarrow>
        (\<exists>d0 ls ms t'. walk_result fn c d0 ls ms t')"
      by blast
    ultimately show "\<exists>d0 ls ms t'. walk_result fn c d0 ls ms t'" by (rule rev_mp)
  qed
  then show ?thesis by (rule walk_results_exist)
qed

lemma nested_tree_walk:
  "nested_tree t \<Longrightarrow>
   \<forall>x. contains t (Obj x) \<longrightarrow> (\<exists>y. fn (Obj x) = Inr y \<and> \<not> is_iterable y) \<Longrightarrow>
   \<exists>d0 ls ms t'. walk_result fn t d0 ls ms t'"
proof (induction rule: nested_tree.induct)
  case (nested_leaf x)
  have "contains (Obj x) (Obj x)" by (rule contains_self)
  with nested_leaf obtain y where y: "fn (Obj x) = Inr y" "\<not> is_iterable y" by blast
  have "walk_result fn (Obj x) 1 [Obj x] [y] y" using y by (rule walk_result_leaf)
  then show ?case by blast
next
  case (nested_list xs)
  have "\<exists>d0 ls ms ts. walk_results fn (members (PList xs)) d0 ls ms ts"
    using nested_list.IH nested_list.prems by (intro walk_members) simp_all
  then obtain d0 ls ms ts where "walk_results fn xs d0 ls ms ts" by auto
  from walk_result_container(1) [OF this] show ?case by blast
next
  case (nested_tuple xs)
  have "\<exists>d0 ls ms ts. walk_results fn (members (PTuple xs)) d0 ls ms ts"
    using nested_tuple.IH nested_tuple.prems by (intro walk_members) simp_all
  then obtain d0 ls ms ts where "walk_results fn xs d0 ls ms ts" by auto
  from walk_result_container(2) [OF this] show ?case by blast
next
  case (nested_namedtuple flds cls)
  have "\<exists>d0 ls ms ts. walk_results fn (members (PNamedTuple cls flds)) d0 ls ms ts"
    using nested_namedtuple.IH nested_namedtuple.prems by (intro walk_members) simp_all
  then obtain d0 ls ms ts where "walk_results fn (map snd flds) d0 ls ms ts" by auto
  from walk_result_namedtuple [OF this nested_namedtuple.hyps(1)] show ?case by blast
next
  case (nested_dict items)
  have "\<exists>d0 ls ms ts. walk_results fn (members (PDict items)) d0 ls ms ts"
    using nested_dict.IH nested_dict.prems by (intro walk_members) simp_all
  then obtain d0 ls ms ts where "walk_results fn (map snd items) d0 ls ms ts" by auto
  from walk_result_dict [OF this] show ?case by blast
qed

inductive_simps nested_tree_simps:
  "nested_tree (Obj x)"
  "nested_tree (Str s)"
  "nested_tree (PList xs)"
  "nested_tree (PTuple xs)"
  "nested_tree (PNamedTuple cls flds)"
  "nested_tree (PDict items)"
  "nested_tree (PIterable xs)"

lemma nested_example_tree: "nested_tree example_tree"
  by (simp add: example_tree_def nested_tree_simps)

lemma into_graph_leaf: "\<exists>y. into_graph g (Obj x) = Inr y \<and> \<not> is_iterable y"
  by (cases x) (simp_all add: is_iterable_simps)

text \<open>
  C4, as the code has it. For a tree \<open>t\<close> built by nesting lists, tuples, named tuples and
  dictionaries around leaves, and a function \<open>fn\<close> that returns, for every leaf of \<open>t\<close>, a
  value that is not iterable: once the recursion limit \<open>d0\<close> covers the nesting,
  \<open>flatten_tree\<close> returns the leaves \<open>ls\<close> of \<open>t\<close>, \<open>transform_tree\<close> returns a tree \<open>t'\<close> of
  the same container shape, and flattening \<open>t'\<close> gives \<open>[fn(x) for x in ls]\<close>, the images of
  the leaves in the same order.
\<close>

theorem flatten_transform_tree:
  assumes tree: "nested_tree t"
    and fn: "\<forall>x. contains t (Obj x) \<longrightarrow> (\<exists>y. fn (Obj x) = Inr y \<and> \<not> is_iterable y)"
  shows "\<exists>d0 ls ms t'. generate fn ls = Inr ms \<and> same_shape t t' \<and>
           (\<forall>d \<ge> d0. flatten_tree d t [] = Inr ls \<and>
                     transform_tree d t fn it = Inr t' \<and>
                     flatten_tree d t' [] = Inr ms)"
proof -
  from nested_tree_walk [OF tree fn] obtain d0 ls ms t' where
    w: "walk_result fn t d0 ls ms t'" by blast
  then have "generate fn ls = Inr ms \<and> same_shape t t' \<and>
           (\<forall>d \<ge> d0. flatten_tree d t [] = Inr ls \<and>
                     transform_tree d t fn it = Inr t' \<and>
                     flatten_tree d t' [] = Inr ms)"
    by (simp add: walk_result_def)
  then show ?thesis by blast
qed

theorem flatten_transform_tree_witness:
  "nested_tree example_tree
   \<and> (\<forall>x. \<exists>y. into_graph 2 (Obj x) = Inr y \<and> \<not> is_iterable y)
   \<and> (\<exists>d0 ls ms t'. generate (into_graph 2) ls = Inr ms \<and> same_shape example_tree t' \<and>
           (\<forall>d \<ge> d0. flatten_tree d example_tree [] = Inr ls \<and>
                     transform_tree d example_tree (into_graph 2) TupleType = Inr t' \<and>
                     flatten_tree d t' [] = Inr ms))
   \<and> flatten_tree 4 example_tree [] = Inr [Obj (Node 1 ''a''), Obj (Tensor 1 ''b'' 0)]
   \<and> transform_tree 4 example_tree (into_graph 2) TupleType =
       Inr (PList [PTuple [PDict [(Str ''k'', Obj (Node 2 ''a''))]],
            PNamedTuple ''Pair'' [(''x'', Obj (Tensor 2 ''b'' 0)), (''y'', PList [])]])
   \<and> flatten_tree 4 (PList [PTuple [PDict [(Str ''k'', Obj (Node 2 ''a''))]],
            PNamedTuple ''Pair'' [(''x'', Obj (Tensor 2 ''b'' 0)), (''y'', PList [])]]) [] =
       Inr [Obj (Node 2 ''a''), Obj (Tensor 2 ''b'' 0)]"
proof -
  have h2: "\<forall>x. \<exists>y. into_graph 2 (Obj x) = Inr y \<and> \<not> is_iterable y"
    using into_graph_leaf by blast
  then have h2': "\<forall>x. contains example_tree (Obj x) \<longrightarrow>
      (\<exists>y. into_graph 2 (Obj x) = Inr y \<and> \<not> is_iterable y)"
    by blast
  note main = flatten_transform_tree [OF nested_example_tree h2', of TupleType]
  have four: "(4::nat) = Suc (Suc (Suc (Suc 0)))" by simp
  have e1: "flatten_tree 4 example_tree [] = Inr [Obj (Node 1 ''a''), Obj (Tensor 1 ''b'' 0)]"
    unfolding four example_tree_def
    by (simp add: flatten_tree_Suc is_iterable_simps visited_simps)
  have e2: "transform_tree 4 example_tree (into_graph 2) TupleType =
       Inr (PList [PTuple [PDict [(Str ''k'', Obj (Node 2 ''a''))]],
            PNamedTuple ''Pair'' [(''x'', Obj (Tensor 2 ''b'' 0)), (''y'', PList [])]])"
    unfolding four example_tree_def
    by (simp add: transform_tree_Suc asdict_def namedtuple_new_def)
  have e3: "flatten_tree 4 (PList [PTuple [PDict [(Str ''k'', Obj (Node 2 ''a''))]],
            PNamedTuple ''Pair'' [(''x'', Obj (Tensor 2 ''b'' 0)), (''y'', PList [])]]) [] =
       Inr [Obj (Node 2 ''a''), Obj (Tensor 2 ''b'' 0)]"
    unfolding four
    by (simp add: flatten_tree_Suc is_iterable_simps visited_simps)
  show ?thesis
    by (intro conjI) (rule nested_example_tree h2 main e1 e2 e3)+
qed


text \<open>
  A function that returns a container for a leaf: the transformed tree then flattens to
  the leaves of those containers, not to the containers.
\<close>

theorem flatten_transform_tree_counterexample:
  "nested_tree (PList [Obj (Node 1 ''a'')])
   \<and> flatten_tree 3 (PList [Obj (Node 1 ''a'')]) [] = Inr [Obj (Node 1 ''a'')]
   \<and> generate wrap_in_list [Obj (Node 1 ''a'')] = Inr [PList [Obj (Node 1 ''a'')]]
   \<and> transform_tree 3 (PList [Obj (Node 1 ''a'')]) wrap_in_list TupleType =
       Inr (PList [PList [Obj (Node 1 ''a'')]])
   \<and> flatten_tree 3 (PList [PList [Obj (Node 1 ''a'')]]) [] = Inr [Obj (Node 1 ''a'')]
   \<and> [Obj (Node 1 ''a'')] \<noteq> [PList [Obj (Node 1 ''a'')]]"
proof -
  have three: "(3::nat) = Suc (Suc (Suc 0))" by simp
  have n: "nested_tree (PList [Obj (Node 1 ''a'')])"
    by (simp add: nested_tree_simps)
  have f1: "flatten_tree 3 (PList [Obj (Node 1 ''a'')]) [] = Inr [Obj (Node 1 ''a'')]"
    unfolding three by (simp add: flatten_tree_Suc is_iterable_simps visited_simps)
  have g: "generate wrap_in_list [Obj (Node 1 ''a'')] = Inr [PList [Obj (Node 1 ''a'')]]"
    by (simp add: wrap_in_list_def)
  have t: "transform_tree 3 (PList [Obj (Node 1 ''a'')]) wrap_in_list TupleType =
       Inr (PList [PList [Obj (Node 1 ''a'')]])"
    unfolding three by (simp add: transform_tree_Suc wrap_in_list_def)
  have f2: "flatten_tree 3 (PList [PList [Obj (Node 1 ''a'')]]) [] = Inr [Obj (Node 1 ''a'')]"
    unfolding three by (simp add: flatten_tree_Suc is_iterable_simps visited_simps)
  have ne: "[Obj (Node 1 ''a'')] \<noteq> [PList [Obj (Node 1 ''a'')]]" by simp
  show ?thesis
    by (intro conjI) (rule n f1 g t f2 ne)+
qed

end
